theory Spec2Isabelle
  imports Complex_Main
begin

section \<open>jetstream.py: wind-speed maps of the jet stream\<close>

text \<open>
  A shallow embedding of \<^verbatim>\<open>src/jetstream.py\<close>. Floating-point numbers are modelled
  as real numbers (rounding is not modelled), numpy arrays as lists: a one-dimensional
  array is a list, a two-dimensional array the list of its rows, a three-dimensional
  array the list of its two-dimensional slices along the first axis.

  The library calls of the script (numpy, \<^verbatim>\<open>basemap.shiftgrid\<close>, pydap, netCDF4,
  matplotlib) are not part of the repository. The array operations are modelled after
  the libraries' documented behaviour on arrays of matching shape; on a shape mismatch
  the model answers \<open>ValueError\<close>, which is what numpy raises unless its broadcasting
  rules apply (broadcasting is not modelled, and every theorem below that depends on
  shapes states the shapes it assumes). What the data sources deliver and whether
  rendering succeeds are parameters of the model.
\<close>

subsection \<open>Exceptions\<close>

datatype error = ValueError | IndexError | AttributeError | IOError

subsection \<open>numpy\<close>

type_synonym array1 = "real list"
type_synonym array2 = "real list list"
type_synonym array3 = "real list list list"

text \<open>The shape of the rows of a two-dimensional array.\<close>

definition shape2 :: "array2 \<Rightarrow> nat list" where
  "shape2 a = map length a"

definition shape3 :: "array3 \<Rightarrow> nat list list" where
  "shape3 a = map shape2 a"

text \<open>\<^verbatim>\<open>a ** 2\<close>\<close>

definition square2 :: "array2 \<Rightarrow> array2" where
  "square2 a = map (map (\<lambda>x. x\<^sup>2)) a"

definition square3 :: "array3 \<Rightarrow> array3" where
  "square3 a = map square2 a"

text \<open>
  \<^verbatim>\<open>np.sqrt(x, out)\<close>: the second positional argument of a numpy ufunc is the
  output array. The square roots of \<open>x\<close> are written into \<open>out\<close>, whose former
  contents are lost, and \<open>out\<close> is returned.
\<close>

definition np_sqrt_out :: "array2 \<Rightarrow> array2 \<Rightarrow> error + array2" where
  "np_sqrt_out x out =
     (if shape2 x = shape2 out then Inr (map (map sqrt) x) else Inl ValueError)"

text \<open>\<^verbatim>\<open>np.sqrt(x)\<close> on a three-dimensional array.\<close>

definition np_sqrt3 :: "array3 \<Rightarrow> array3" where
  "np_sqrt3 x = map (map (map sqrt)) x"

text \<open>\<^verbatim>\<open>a + b\<close>\<close>

definition add2 :: "array2 \<Rightarrow> array2 \<Rightarrow> error + array2" where
  "add2 a b =
     (if shape2 a = shape2 b then Inr (map2 (map2 (+)) a b) else Inl ValueError)"

definition add3 :: "array3 \<Rightarrow> array3 \<Rightarrow> error + array3" where
  "add3 a b =
     (if shape3 a = shape3 b then Inr (map2 (map2 (map2 (+))) a b) else Inl ValueError)"

text \<open>\<^verbatim>\<open>c * a\<close> and \<^verbatim>\<open>a / c\<close> for a scalar \<open>c\<close>\<close>

definition scale2 :: "real \<Rightarrow> array2 \<Rightarrow> array2" where
  "scale2 c a = map (map (\<lambda>x. c * x)) a"

definition scale3 :: "real \<Rightarrow> array3 \<Rightarrow> array3" where
  "scale3 c a = map (scale2 c) a"

definition divide2 :: "array2 \<Rightarrow> real \<Rightarrow> array2" where
  "divide2 a c = map (map (\<lambda>x. x / c)) a"

text \<open>
  \<^verbatim>\<open>a[i]\<close> along the first axis: a negative index counts from the end, an index
  outside \<open>-n \<dots> n-1\<close> raises IndexError.
\<close>

definition getitem :: "'a list \<Rightarrow> int \<Rightarrow> error + 'a" where
  "getitem a i =
     (if 0 \<le> i \<and> i < int (length a) then Inr (a ! nat i)
      else if i < 0 \<and> - int (length a) \<le> i then Inr (a ! nat (int (length a) + i))
      else Inl IndexError)"

text \<open>\<^verbatim>\<open>np.argmin(a)\<close>: the index of the first occurrence of the smallest entry.\<close>

fun argmin :: "real list \<Rightarrow> nat" where
  "argmin [] = 0"
| "argmin [x] = 0"
| "argmin (x # y # ys) =
     (let k = argmin (y # ys) in if x \<le> (y # ys) ! k then 0 else Suc k)"

subsection \<open>basemap.shiftgrid\<close>

text \<open>
  \<^verbatim>\<open>shiftgrid(lon0, datain, lonsin, start=True, cyclic=360.0)\<close> of
  \<^verbatim>\<open>mpl_toolkits.basemap\<close>, after the library's implementation:
  \<^verbatim>\<open>
    if np.fabs(lonsin[-1]-lonsin[0]-cyclic) > 1.e-4: start_idx = 0
    else: start_idx = 1
    if lon0 < lonsin[0] or lon0 > lonsin[-1]:
        raise ValueError('lon0 outside of range of lonsin')
    i0 = np.argmin(np.fabs(lonsin-lon0))
    i0_shift = len(lonsin)-i0
    dataout = np.zeros(datain.shape,datain.dtype)
    lonsout = np.zeros(lonsin.shape,lonsin.dtype)
    if start: lonsout[0:i0_shift] = lonsin[i0:]
    else:     lonsout[0:i0_shift] = lonsin[i0:]-cyclic
    dataout[...,0:i0_shift] = datain[...,i0:]
    if start: lonsout[i0_shift:] = lonsin[start_idx:i0+start_idx]+cyclic
    else:     lonsout[i0_shift:] = lonsin[start_idx:i0+start_idx]
    dataout[...,i0_shift:] = datain[...,start_idx:i0+start_idx]
    return dataout,lonsout
  \<close>
  The index of the source column that ends up in column \<open>j\<close> is \<open>shift_index\<close>.
  The model covers data whose rows are as long as \<open>lonsin\<close>; other data is
  answered with \<open>ValueError\<close>.
\<close>

definition start_index :: "array1 \<Rightarrow> real \<Rightarrow> nat" where
  "start_index lonsin cyclic =
     (if \<bar>last lonsin - hd lonsin - cyclic\<bar> > 1 / 10000 then 0 else 1)"

definition nearest :: "array1 \<Rightarrow> real \<Rightarrow> nat" where
  "nearest lonsin lon0 = argmin (map (\<lambda>x. \<bar>x - lon0\<bar>) lonsin)"

definition shift_row :: "nat \<Rightarrow> nat \<Rightarrow> 'a list \<Rightarrow> 'a list" where
  "shift_row i0 start_idx row = drop i0 row @ take i0 (drop start_idx row)"


definition shiftgrid ::
  "real \<Rightarrow> array2 \<Rightarrow> array1 \<Rightarrow> bool \<Rightarrow> real \<Rightarrow> error + (array2 \<times> array1)" where
  "shiftgrid lon0 datain lonsin start cyclic =
     (if lonsin = [] then Inl IndexError
      else if lon0 < hd lonsin \<or> lon0 > last lonsin then Inl ValueError
      else
        let start_idx = start_index lonsin cyclic;
            i0 = nearest lonsin lon0;
            lonsout =
              (if start then drop i0 lonsin else map (\<lambda>x. x - cyclic) (drop i0 lonsin)) @
              (if start then map (\<lambda>x. x + cyclic) (take i0 (drop start_idx lonsin))
               else take i0 (drop start_idx lonsin))
        in if list_all (\<lambda>row. length row = length lonsin) datain
           then Inr (map (shift_row i0 start_idx) datain, lonsout)
           else Inl ValueError)"

subsection \<open>The data sources and the loaded fields\<close>

text \<open>
  What the OPeNDAP client delivers for one URL: \<^verbatim>\<open>c.ugrdtrop.lon[:]\<close>,
  \<^verbatim>\<open>c.ugrdtrop.lat[:]\<close>, \<^verbatim>\<open>c.ugrdtrop.ugrdtrop[0][0]\<close> and
  \<^verbatim>\<open>c.vgrdtrop.vgrdtrop[0][0]\<close>.
\<close>

record gfs_dataset =
  gfs_lon :: array1
  gfs_lat :: array1
  ugrdtrop :: array2
  vgrdtrop :: array2

text \<open>
  What the file \<^verbatim>\<open>era-december-averages.nc\<close> holds: the variables
  \<^verbatim>\<open>longitude\<close>, \<^verbatim>\<open>latitude\<close>, \<^verbatim>\<open>u\<close> and \<^verbatim>\<open>v\<close>, the last two with the
  time as their first axis.
\<close>

record era_dataset =
  longitude :: array1
  latitude :: array1
  era_u :: array3
  era_v :: array3

text \<open>The three attributes a load binds: \<^verbatim>\<open>self.lon, self.lat, self.windspeed\<close>.\<close>

record jetstream =
  lon :: array1
  lat :: array1
  windspeed :: array2

subsection \<open>GFSJetStreamData.load\<close>

text \<open>
  Line 98: \<^verbatim>\<open>windspeed = 3.6 * np.sqrt(u_component**2, v_component**2)\<close>. The two
  squares are separated by a comma, so the second one is the output array of
  \<^verbatim>\<open>np.sqrt\<close> and does not enter the result.
\<close>

definition gfs_windspeed :: "gfs_dataset \<Rightarrow> error + array2" where
  "gfs_windspeed c =
     (case np_sqrt_out (square2 (ugrdtrop c)) (square2 (vgrdtrop c)) of
        Inl e \<Rightarrow> Inl e
      | Inr r \<Rightarrow> Inr (scale2 3.6 r))"

definition GFS_load :: "gfs_dataset \<Rightarrow> error + jetstream" where
  "GFS_load c =
     (case gfs_windspeed c of
        Inl e \<Rightarrow> Inl e
      | Inr w \<Rightarrow>
          (case shiftgrid 180 w (gfs_lon c) False 360 of
             Inl e \<Rightarrow> Inl e
           | Inr (w', lon') \<Rightarrow> Inr \<lparr>lon = lon', lat = gfs_lat c, windspeed = w'\<rparr>))"

subsection \<open>ERAJetStreamData.load\<close>

text \<open>
  Lines 117 to 119: the speed of every time slice, then the slice of the year.
\<close>

definition era_windspeed :: "era_dataset \<Rightarrow> int \<Rightarrow> error + array2" where
  "era_windspeed d year =
     (case add3 (square3 (era_u d)) (square3 (era_v d)) of
        Inl e \<Rightarrow> Inl e
      | Inr s \<Rightarrow> getitem (scale3 3.6 (np_sqrt3 s)) (year - 1979))"

definition ERA_load :: "era_dataset \<Rightarrow> int \<Rightarrow> error + jetstream" where
  "ERA_load d year =
     (case era_windspeed d year of
        Inl e \<Rightarrow> Inl e
      | Inr w \<Rightarrow>
          (case shiftgrid 180 w (longitude d) False 360 of
             Inl e \<Rightarrow> Inl e
           | Inr (w', lon') \<Rightarrow> Inr \<lparr>lon = lon', lat = latitude d, windspeed = w'\<rparr>))"

subsection \<open>The store\<close>

text \<open>
  numpy arrays are mutable objects, and \<^verbatim>\<open>plot_gfs_average\<close> adds to one in place.
  Arrays therefore live in a store, at addresses; an object holds the addresses of the
  arrays its attributes are bound to. \<open>top\<close> is the next address not yet in use.
\<close>

type_synonym addr = nat

datatype ndarray = Array1 array1 | Array2 array2

record store =
  cell :: "addr \<Rightarrow> ndarray"
  top :: addr

definition alloc :: "store \<Rightarrow> ndarray \<Rightarrow> store \<times> addr" where
  "alloc s a = (s\<lparr>cell := (cell s)(top s := a), top := Suc (top s)\<rparr>, top s)"

record jsobject =
  lon_at :: addr
  lat_at :: addr
  windspeed_at :: addr

text \<open>
  The last line of both loads, \<^verbatim>\<open>self.lon, self.lat, self.windspeed = lon, lat, windspeed\<close>.
  The three arrays are new: \<^verbatim>\<open>shiftgrid\<close> builds its results with \<^verbatim>\<open>np.zeros\<close>, and
  the latitudes are read from the data source on every load.
\<close>

definition bind_attributes :: "store \<Rightarrow> jetstream \<Rightarrow> store \<times> jsobject" where
  "bind_attributes s f =
     (let (s1, a) = alloc s (Array1 (lon f));
          (s2, b) = alloc s1 (Array1 (lat f));
          (s3, c) = alloc s2 (Array2 (windspeed f))
      in (s3, \<lparr>lon_at = a, lat_at = b, windspeed_at = c\<rparr>))"

text \<open>\<^verbatim>\<open>a += b\<close> and \<^verbatim>\<open>a / c\<close> on the arrays themselves.\<close>

fun iadd_array :: "ndarray \<Rightarrow> ndarray \<Rightarrow> error + ndarray" where
  "iadd_array (Array2 x) (Array2 y) =
     (case add2 x y of Inl e \<Rightarrow> Inl e | Inr r \<Rightarrow> Inr (Array2 r))"
| "iadd_array (Array1 x) (Array1 y) =
     (if length x = length y then Inr (Array1 (map2 (+) x y)) else Inl ValueError)"
| "iadd_array _ _ = Inl ValueError"

fun divide_array :: "ndarray \<Rightarrow> real \<Rightarrow> ndarray" where
  "divide_array (Array2 x) c = Array2 (divide2 x c)"
| "divide_array (Array1 x) c = Array1 (map (\<lambda>v. v / c) x)"

text \<open>In place: the array at address \<open>a\<close> is overwritten, no address changes.\<close>

definition iadd :: "store \<Rightarrow> addr \<Rightarrow> addr \<Rightarrow> error + store" where
  "iadd s a b =
     (case iadd_array (cell s a) (cell s b) of
        Inl e \<Rightarrow> Inl e
      | Inr r \<Rightarrow> Inr (s\<lparr>cell := (cell s)(a := r)\<rparr>))"

subsection \<open>The environment\<close>

text \<open>
  What the script reads from outside and what the plotting library does:
  \<^item> \<open>open_url\<close>: the dataset behind a URL (\<^verbatim>\<open>client.open_url\<close> and the four reads
    of \<^verbatim>\<open>GFSJetStreamData.load\<close>), or the exception the client raises;
  \<^item> \<open>Dataset\<close>: the content of \<^verbatim>\<open>era-december-averages.nc\<close> when it is opened for
    the given year, or the exception netCDF4 raises (a constant function when the file
    does not change during the run);
  \<^item> \<open>render\<close>: \<^verbatim>\<open>JetStreamMap.render\<close>, which draws the longitudes, latitudes and
    wind speeds under a title and gives the figure, or raises;
  \<^item> \<open>writable\<close>: whether \<^verbatim>\<open>savefig\<close> can write the file of that name.
\<close>

record 'fig env =
  open_url :: "string \<Rightarrow> error + gfs_dataset"
  Dataset :: "int \<Rightarrow> error + era_dataset"
  render :: "ndarray \<Rightarrow> ndarray \<Rightarrow> ndarray \<Rightarrow> string \<Rightarrow> error + 'fig"
  writable :: "string \<Rightarrow> bool"

subsection \<open>The classes\<close>

datatype pyclass = JetStreamData | GFSJetStreamData | ERAJetStreamData

text \<open>The methods each class body defines, and the method resolution order.\<close>

fun methods :: "pyclass \<Rightarrow> string list" where
  "methods JetStreamData = [''__init__'', ''create_map'']"
| "methods GFSJetStreamData = [''__init__'', ''load'']"
| "methods ERAJetStreamData = [''__init__'', ''load'']"

fun mro :: "pyclass \<Rightarrow> pyclass list" where
  "mro JetStreamData = [JetStreamData]"
| "mro GFSJetStreamData = [GFSJetStreamData, JetStreamData]"
| "mro ERAJetStreamData = [ERAJetStreamData, JetStreamData]"

definition resolve :: "pyclass \<Rightarrow> string \<Rightarrow> pyclass option" where
  "resolve cls name = find (\<lambda>c. name \<in> set (methods c)) (mro cls)"

text \<open>The attributes \<^verbatim>\<open>__init__\<close> has set on \<^verbatim>\<open>self\<close> when it calls \<^verbatim>\<open>self.load()\<close>.\<close>

datatype init_attrs = No_attrs | Url string | Year int

text \<open>
  A load in two steps: the lines that read the source and compute the three arrays, and
  the last line, which binds them to the attributes of \<^verbatim>\<open>self\<close>.
\<close>

definition gfs_fetch :: "'fig env \<Rightarrow> string \<Rightarrow> error + jetstream" where
  "gfs_fetch env url = (case open_url env url of Inl e \<Rightarrow> Inl e | Inr c \<Rightarrow> GFS_load c)"

definition era_fetch :: "'fig env \<Rightarrow> int \<Rightarrow> error + jetstream" where
  "era_fetch env year = (case Dataset env year of Inl e \<Rightarrow> Inl e | Inr d \<Rightarrow> ERA_load d year)"

definition GFSJetStreamData_load ::
  "'fig env \<Rightarrow> store \<Rightarrow> string \<Rightarrow> error + (store \<times> jsobject)" where
  "GFSJetStreamData_load env s url =
     (case gfs_fetch env url of Inl e \<Rightarrow> Inl e | Inr f \<Rightarrow> Inr (bind_attributes s f))"

definition ERAJetStreamData_load ::
  "'fig env \<Rightarrow> store \<Rightarrow> int \<Rightarrow> error + (store \<times> jsobject)" where
  "ERAJetStreamData_load env s year =
     (case era_fetch env year of Inl e \<Rightarrow> Inl e | Inr f \<Rightarrow> Inr (bind_attributes s f))"

text \<open>
  The body of the \<^verbatim>\<open>load\<close> of a class, run on a \<^verbatim>\<open>self\<close> with the given attributes;
  reading an attribute that is not set raises AttributeError.
\<close>

fun load_method ::
  "pyclass \<Rightarrow> 'fig env \<Rightarrow> store \<Rightarrow> init_attrs \<Rightarrow> error + (store \<times> jsobject)" where
  "load_method GFSJetStreamData env s (Url url) = GFSJetStreamData_load env s url"
| "load_method ERAJetStreamData env s (Year year) = ERAJetStreamData_load env s year"
| "load_method _ env s _ = Inl AttributeError"

text \<open>
  \<^verbatim>\<open>self.load()\<close> at the end of each \<^verbatim>\<open>__init__\<close>: the method is looked up along the
  method resolution order of the class of \<^verbatim>\<open>self\<close>.
\<close>

definition new ::
  "'fig env \<Rightarrow> store \<Rightarrow> pyclass \<Rightarrow> init_attrs \<Rightarrow> error + (store \<times> jsobject)" where
  "new env s cls attrs =
     (case resolve cls ''load'' of
        None \<Rightarrow> Inl AttributeError
      | Some c \<Rightarrow> load_method c env s attrs)"

text \<open>\<^verbatim>\<open>JetStreamData.create_map\<close>: the figure of the map rendered from \<^verbatim>\<open>self\<close>.\<close>

definition create_map :: "'fig env \<Rightarrow> store \<Rightarrow> jsobject \<Rightarrow> string \<Rightarrow> error + 'fig" where
  "create_map env s self title =
     render env (cell s (lon_at self)) (cell s (lat_at self)) (cell s (windspeed_at self)) title"

type_synonym 'fig files = "(string \<times> 'fig) list"

definition savefig :: "'fig env \<Rightarrow> 'fig files \<Rightarrow> string \<Rightarrow> 'fig \<Rightarrow> error + 'fig files" where
  "savefig env files name fig =
     (if writable env name then Inr (files @ [(name, fig)]) else Inl IOError)"

subsection \<open>String formatting\<close>

definition digit :: "nat \<Rightarrow> char" where
  "digit d = ''0123456789'' ! d"

fun str_nat :: "nat \<Rightarrow> string" where
  "str_nat n = (if n < 10 then [digit n] else str_nat (n div 10) @ [digit (n mod 10)])"

declare str_nat.simps [simp del]

text \<open>\<^verbatim>\<open>'{}'.format(i)\<close> and \<^verbatim>\<open>'{0:02d}'.format(n)\<close>\<close>

definition str_int :: "int \<Rightarrow> string" where
  "str_int i = (if i < 0 then ''-'' @ str_nat (nat (- i)) else str_nat (nat i))"

definition format_02d :: "nat \<Rightarrow> string" where
  "format_02d n = replicate (2 - length (str_nat n)) (CHR ''0'') @ str_nat n"

definition gfs_url :: "nat \<Rightarrow> string" where
  "gfs_url day =
     ''http://nomads.ncep.noaa.gov:9090/dods/gfs/gfs201402'' @ format_02d day @ ''/gfs_00z_anl''"

definition gfs_title :: string where
  "gfs_title = ''Jet stream in February 2014(GFS averaged)''"

definition era_title :: "int \<Rightarrow> string" where
  "era_title year = ''December '' @ str_int year"

definition era_png :: "int \<Rightarrow> string" where
  "era_png year = ''output/'' @ str_int year @ ''.png''"

subsection \<open>plot_gfs_average\<close>

text \<open>\<^verbatim>\<open>days = range(1, 17)\<close>\<close>

definition days :: "nat list" where
  "days = [1..<17]"

text \<open>Lines 128 to 131: one dataset per day, appended to \<^verbatim>\<open>streamdata\<close>.\<close>

fun load_days ::
  "'fig env \<Rightarrow> store \<Rightarrow> jsobject list \<Rightarrow> nat list \<Rightarrow> error + (store \<times> jsobject list)" where
  "load_days env s streamdata [] = Inr (s, streamdata)"
| "load_days env s streamdata (day # ds) =
     (case new env s GFSJetStreamData (Url (gfs_url day)) of
        Inl e \<Rightarrow> Inl e
      | Inr (s', data) \<Rightarrow> load_days env s' (streamdata @ [data]) ds)"

text \<open>
  Lines 132 and 133: \<^verbatim>\<open>for data in streamdata[1:]: streamdata[0].windspeed += data.windspeed\<close>
\<close>

fun accumulate :: "store \<Rightarrow> jsobject \<Rightarrow> jsobject list \<Rightarrow> error + store" where
  "accumulate s first [] = Inr s"
| "accumulate s first (data # rest) =
     (case iadd s (windspeed_at first) (windspeed_at data) of
        Inl e \<Rightarrow> Inl e
      | Inr s' \<Rightarrow> accumulate s' first rest)"

text \<open>
  Line 134: \<^verbatim>\<open>streamdata[0].windspeed = streamdata[0].windspeed / float(len(days))\<close>.
  The quotient is a new array, and the attribute is bound to it.
\<close>

definition average :: "store \<Rightarrow> jsobject list \<Rightarrow> error + (store \<times> jsobject list)" where
  "average s streamdata =
     (case streamdata of
        [] \<Rightarrow> Inl IndexError
      | first # rest \<Rightarrow>
          (let (s', a) = alloc s (divide_array (cell s (windspeed_at first)) (real (length days)))
           in Inr (s', first\<lparr>windspeed_at := a\<rparr> # rest)))"

text \<open>Lines 126 to 134: the state in which the map is created.\<close>

definition gfs_average :: "'fig env \<Rightarrow> store \<Rightarrow> error + (store \<times> jsobject list)" where
  "gfs_average env s =
     (case load_days env s [] days of
        Inl e \<Rightarrow> Inl e
      | Inr (s1, streamdata) \<Rightarrow>
          (case streamdata of
             [] \<Rightarrow> Inl IndexError
           | first # rest \<Rightarrow>
               (case accumulate s1 first rest of
                  Inl e \<Rightarrow> Inl e
                | Inr s2 \<Rightarrow> average s2 streamdata)))"

text \<open>
  The whole function: the files written when it ends, and the exception it ends with,
  if any.
\<close>

definition plot_gfs_average ::
  "'fig env \<Rightarrow> store \<Rightarrow> 'fig files \<Rightarrow> 'fig files \<times> error option" where
  "plot_gfs_average env s files =
     (case gfs_average env s of
        Inl e \<Rightarrow> (files, Some e)
      | Inr (s', streamdata) \<Rightarrow>
          (case streamdata of
             [] \<Rightarrow> (files, Some IndexError)
           | first # rest \<Rightarrow>
               (case create_map env s' first gfs_title of
                  Inl e \<Rightarrow> (files, Some e)
                | Inr fig \<Rightarrow>
                    (case savefig env files ''output/gfs.png'' fig of
                       Inl e \<Rightarrow> (files, Some e)
                     | Inr files' \<Rightarrow> (files', None)))))"

subsection \<open>plot_era_average\<close>

fun era_loop ::
  "'fig env \<Rightarrow> store \<Rightarrow> 'fig files \<Rightarrow> int list \<Rightarrow> 'fig files \<times> error option" where
  "era_loop env s files [] = (files, None)"
| "era_loop env s files (year # years) =
     (case new env s ERAJetStreamData (Year year) of
        Inl e \<Rightarrow> (files, Some e)
      | Inr (s', data) \<Rightarrow>
          (case create_map env s' data (era_title year) of
             Inl e \<Rightarrow> (files, Some e)
           | Inr fig \<Rightarrow>
               (case savefig env files (era_png year) fig of
                  Inl e \<Rightarrow> (files, Some e)
                | Inr files' \<Rightarrow> era_loop env s' files' years)))"

text \<open>\<^verbatim>\<open>for year in range(1979, 2014)\<close>\<close>

definition plot_era_average ::
  "'fig env \<Rightarrow> store \<Rightarrow> 'fig files \<Rightarrow> 'fig files \<times> error option" where
  "plot_era_average env s files = era_loop env s files [1979..2013]"

subsection \<open>Properties of the data that the statements below refer to\<close>

text \<open>\<open>x\<close> lies between the first and the last entry of a non-empty array.\<close>

definition spans :: "array1 \<Rightarrow> real \<Rightarrow> bool" where
  "spans lons x \<longleftrightarrow> lons \<noteq> [] \<and> hd lons \<le> x \<and> x \<le> last lons"



text \<open>A field of \<open>nlat\<close> rows and \<open>nlon\<close> columns.\<close>

definition has_shape :: "array2 \<Rightarrow> nat \<Rightarrow> nat \<Rightarrow> bool" where
  "has_shape w nlat nlon \<longleftrightarrow> length w = nlat \<and> list_all (\<lambda>row. length row = nlon) w"

text \<open>The wind components of a source are aligned with its coordinate arrays.\<close>

definition gfs_grid :: "gfs_dataset \<Rightarrow> bool" where
  "gfs_grid c \<longleftrightarrow>
     has_shape (ugrdtrop c) (length (gfs_lat c)) (length (gfs_lon c)) \<and>
     has_shape (vgrdtrop c) (length (gfs_lat c)) (length (gfs_lon c))"

definition era_grid :: "era_dataset \<Rightarrow> bool" where
  "era_grid d \<longleftrightarrow>
     length (era_u d) = length (era_v d) \<and>
     list_all (\<lambda>w. has_shape w (length (latitude d)) (length (longitude d))) (era_u d) \<and>
     list_all (\<lambda>w. has_shape w (length (latitude d)) (length (longitude d))) (era_v d)"

text \<open>The wind speed in km/h of the components \<open>u\<close> and \<open>v\<close> in m/s.\<close>

definition speed :: "real \<Rightarrow> real \<Rightarrow> real" where
  "speed u v = 3.6 * sqrt (u\<^sup>2 + v\<^sup>2)"

text \<open>The attributes of an object are bound to the arrays of \<open>f\<close>.\<close>

definition holds :: "store \<Rightarrow> jsobject \<Rightarrow> jetstream \<Rightarrow> bool" where
  "holds s ob f \<longleftrightarrow>
     cell s (lon_at ob) = Array1 (lon f) \<and>
     cell s (lat_at ob) = Array1 (lat f) \<and>
     cell s (windspeed_at ob) = Array2 (windspeed f)"

text \<open>The addresses an object refers to.\<close>

definition addrs :: "jsobject \<Rightarrow> addr list" where
  "addrs ob = [lon_at ob, lat_at ob, windspeed_at ob]"





subsection \<open>Properties of objects in the store\<close>

text \<open>The arrays of an object have been allocated.\<close>

definition allocated :: "store \<Rightarrow> jsobject \<Rightarrow> bool" where
  "allocated s ob \<longleftrightarrow> list_all (\<lambda>a. a < top s) (addrs ob)"

text \<open>No array is shared: neither between two objects nor between two attributes.\<close>

definition separate :: "jsobject list \<Rightarrow> bool" where
  "separate obs \<longleftrightarrow> distinct (concat (map addrs obs))"

text \<open>
  The wind speed of an object is a two-dimensional array with one row per latitude and
  one column per longitude of the object.
\<close>

definition aligned :: "store \<Rightarrow> jsobject \<Rightarrow> bool" where
  "aligned s ob =
     (case (cell s (lon_at ob), cell s (lat_at ob), cell s (windspeed_at ob)) of
        (Array1 lo, Array1 la, Array2 w) \<Rightarrow> has_shape w (length la) (length lo)
      | _ \<Rightarrow> False)"

text \<open>The sum of two arrays of the same shape, entry by entry.\<close>

definition plus2 :: "array2 \<Rightarrow> array2 \<Rightarrow> array2" where
  "plus2 a b = map2 (map2 (+)) a b"

subsection \<open>One iteration of plot_era_average\<close>

text \<open>
  The figure that the iteration for \<open>year\<close> writes, or the exception it raises: the
  load, the rendering of the loaded arrays and the writing of the file.
\<close>

definition era_iteration :: "'fig env \<Rightarrow> int \<Rightarrow> error + 'fig" where
  "era_iteration env year =
     (case era_fetch env year of
        Inl e \<Rightarrow> Inl e
      | Inr f \<Rightarrow>
          (case render env (Array1 (lon f)) (Array1 (lat f)) (Array2 (windspeed f))
                  (era_title year) of
             Inl e \<Rightarrow> Inl e
           | Inr fig \<Rightarrow> if writable env (era_png year) then Inr fig else Inl IOError))"

subsection \<open>Reading a decimal numeral\<close>

definition digit_value :: "char \<Rightarrow> nat" where
  "digit_value c = length (takeWhile (\<lambda>d. d \<noteq> c) ''0123456789'')"

definition nat_of_str :: "string \<Rightarrow> nat" where
  "nat_of_str cs = foldl (\<lambda>a c. 10 * a + digit_value c) 0 cs"

subsection \<open>Example data\<close>

definition empty_store :: store where
  "empty_store = \<lparr>cell = (\<lambda>a. Array1 []), top = 0\<rparr>"

text \<open>A GFS dataset on a grid of one latitude and four longitudes.\<close>

definition example_gfs :: gfs_dataset where
  "example_gfs =
     \<lparr>gfs_lon = [0, 90, 180, 270], gfs_lat = [45],
      ugrdtrop = [[1, 0, 1, 0]], vgrdtrop = [[0, 1, 1, 0]]\<rparr>"

text \<open>An ERA file with two Decembers, 1979 and 1980, on the same grid.\<close>

definition example_era :: era_dataset where
  "example_era =
     \<lparr>longitude = [0, 90, 180, 270], latitude = [45],
      era_u = [[[3, 0, 0, 0]], [[0, 0, 3, 0]]],
      era_v = [[[4, 0, 0, 0]], [[0, 0, 4, 0]]]\<rparr>"

text \<open>
  An environment in which every URL and the file deliver these datasets, every
  rendering succeeds (the figure is the title) and every file can be written.
\<close>

definition example_env :: "string env" where
  "example_env =
     \<lparr>open_url = (\<lambda>url. Inr example_gfs),
      Dataset = (\<lambda>year. Inr example_era),
      render = (\<lambda>lons lats w title. Inr title),
      writable = (\<lambda>name. True)\<rparr>"

text \<open>An ERA file with the 35 Decembers from 1979 to 2013, and its environment.\<close>

definition long_era :: era_dataset where
  "long_era =
     \<lparr>longitude = [0, 90, 180, 270], latitude = [45],
      era_u = replicate 35 [[3, 0, 0, 0]], era_v = replicate 35 [[4, 0, 0, 0]]\<rparr>"

definition long_env :: "string env" where
  "long_env = example_env\<lparr>Dataset := (\<lambda>year. Inr long_era)\<rparr>"

text \<open>An environment in which the data of 3 February cannot be fetched.\<close>

definition flaky_env :: "string env" where
  "flaky_env =
     example_env\<lparr>open_url := (\<lambda>url. if url = gfs_url 3 then Inl IOError else Inr example_gfs)\<rparr>"

section \<open>Evaluation on concrete inputs\<close>

lemmas np_defs =
  np_sqrt_out_def square2_def shape2_def scale2_def shiftgrid_def start_index_def
  nearest_def shift_row_def square3_def shape3_def add3_def np_sqrt3_def scale3_def
  getitem_def

lemma sqrt_9: "sqrt 9 = 3"
  using real_sqrt_abs[of 3] by simp

lemma sqrt_25: "sqrt 25 = 5"
  using real_sqrt_abs[of 5] by simp

section \<open>The wind speed of a GFS load\<close>

text \<open>
  C1 (the wind speed stored by \<^verbatim>\<open>GFSJetStreamData.load\<close> is \<open>3.6 * sqrt(u^2 + v^2)\<close>).
  The code does not compute this: for \<open>u = 3\<close> and \<open>v = 4\<close> at both grid points the
  claimed speed is \<open>3.6 * 5 = 18\<close>, and the load stores \<open>3.6 * 3 = 10.8\<close>, the
  speed of the \<open>u\<close> component alone.
\<close>

theorem GFS_load_ignores_v:
  "GFS_load \<lparr>gfs_lon = [0, 180], gfs_lat = [0], ugrdtrop = [[3, 3]], vgrdtrop = [[4, 4]]\<rparr>
     = Inr \<lparr>lon = [- 180, 0], lat = [0], windspeed = [[10.8, 10.8]]\<rparr>
   \<and> speed 3 4 = 18"
  by (simp add: GFS_load_def gfs_windspeed_def np_defs sqrt_9 speed_def sqrt_25)

section \<open>The nearest grid point and the grid shift\<close>

lemma argmin_less: "xs \<noteq> [] \<Longrightarrow> argmin xs < length xs"
  by (induction xs rule: argmin.induct) (auto simp: Let_def)



lemma nearest_less: "lons \<noteq> [] \<Longrightarrow> nearest lons x < length lons"
  using argmin_less[of "map (\<lambda>y. \<bar>y - x\<bar>) lons"] by (simp add: nearest_def)




lemma start_index_le: "start_index lons c \<le> 1"
  by (simp add: start_index_def)

lemma shiftgrid_ok:
  assumes "spans lons x" and "list_all (\<lambda>row. length row = length lons) w"
  shows "shiftgrid x w lons False c =
    Inr (map (shift_row (nearest lons x) (start_index lons c)) w,
         map (\<lambda>y. y - c) (drop (nearest lons x) lons) @
           take (nearest lons x) (drop (start_index lons c) lons))"
  using assms by (simp add: shiftgrid_def spans_def Let_def)

lemma shiftgrid_error:
  "shiftgrid x w lons st c = Inl e \<Longrightarrow> spans lons x \<Longrightarrow> list_all (\<lambda>row. length row = length lons) w \<Longrightarrow> False"
  by (auto simp add: shiftgrid_def spans_def Let_def split: if_splits)

lemma shift_row_length:
  "i0 + si \<le> length row \<Longrightarrow> length (shift_row i0 si row) = length row"
  by (simp add: shift_row_def)


section \<open>Shapes and the wind speed before the shift\<close>



lemma has_shape_shape2: "has_shape a m n \<Longrightarrow> has_shape b m n \<Longrightarrow> shape2 a = shape2 b"
  by (auto simp: has_shape_def shape2_def list_all_length intro!: nth_equalityI)

lemma shape2_has_shape: "shape2 a = shape2 b \<Longrightarrow> has_shape b m n \<Longrightarrow> has_shape a m n"
proof -
  assume eq: "shape2 a = shape2 b" and b: "has_shape b m n"
  from eq have len: "length a = length b" unfolding shape2_def by (rule map_eq_imp_length_eq)
  have "length (a ! i) = length (b ! i)" if "i < length a" for i
    using that eq len unfolding shape2_def by (metis nth_map)
  with b len show ?thesis by (auto simp: has_shape_def list_all_length)
qed

lemma gfs_windspeed_ok:
  assumes "shape2 (ugrdtrop c) = shape2 (vgrdtrop c)"
  shows "gfs_windspeed c = Inr (map (map (\<lambda>x. 3.6 * \<bar>x\<bar>)) (ugrdtrop c))"
  using assms
  by (simp add: gfs_windspeed_def np_sqrt_out_def square2_def shape2_def scale2_def o_def)

lemma map2_nest:
  "map F (map2 G (map H xs) (map H ys)) = map2 (\<lambda>a b. F (G (H a) (H b))) xs ys"
  by (simp add: zip_map_map split_def)

lemma speed1:
  "map (\<lambda>x. 3.6 * x) (map sqrt (map2 (+) (map power2 r) (map power2 r'))) = map2 speed r r'"
  by (simp add: zip_map_map split_def speed_def o_def)

lemma speed2:
  "scale2 3.6 (map (map sqrt) (map2 (map2 (+)) (square2 a) (square2 b))) = map2 (map2 speed) a b"
proof (rule nth_equalityI)
  show "length (scale2 3.6 (map (map sqrt) (map2 (map2 (+)) (square2 a) (square2 b)))) =
    length (map2 (map2 speed) a b)"
    by (simp add: scale2_def square2_def)
next
  fix i assume "i < length (scale2 3.6 (map (map sqrt) (map2 (map2 (+)) (square2 a) (square2 b))))"
  then have i: "i < length a" "i < length b" by (simp_all add: scale2_def square2_def)
  have "scale2 3.6 (map (map sqrt) (map2 (map2 (+)) (square2 a) (square2 b))) ! i
    = map (\<lambda>x. 3.6 * x) (map sqrt (map2 (+) (map power2 (a ! i)) (map power2 (b ! i))))"
    using i by (simp add: scale2_def square2_def)
  also have "\<dots> = map2 speed (a ! i) (b ! i)" by (rule speed1)
  also have "\<dots> = map2 (map2 speed) a b ! i" using i by simp
  finally show "scale2 3.6 (map (map sqrt) (map2 (map2 (+)) (square2 a) (square2 b))) ! i
    = map2 (map2 speed) a b ! i" .
qed

lemma era_speed3:
  "scale3 3.6 (np_sqrt3 (map2 (map2 (map2 (+))) (square3 u) (square3 v)))
     = map2 (map2 (map2 speed)) u v"
proof (rule nth_equalityI)
  show "length (scale3 3.6 (np_sqrt3 (map2 (map2 (map2 (+))) (square3 u) (square3 v)))) =
    length (map2 (map2 (map2 speed)) u v)"
    by (simp add: scale3_def np_sqrt3_def square3_def)
next
  fix t assume "t < length (scale3 3.6 (np_sqrt3 (map2 (map2 (map2 (+))) (square3 u) (square3 v))))"
  then have t: "t < length u" "t < length v" by (simp_all add: scale3_def np_sqrt3_def square3_def)
  have "scale3 3.6 (np_sqrt3 (map2 (map2 (map2 (+))) (square3 u) (square3 v))) ! t
    = scale2 3.6 (map (map sqrt) (map2 (map2 (+)) (square2 (u ! t)) (square2 (v ! t))))"
    using t by (simp add: scale3_def np_sqrt3_def square3_def)
  also have "\<dots> = map2 (map2 speed) (u ! t) (v ! t)" by (rule speed2)
  also have "\<dots> = map2 (map2 (map2 speed)) u v ! t" using t by simp
  finally show "scale3 3.6 (np_sqrt3 (map2 (map2 (map2 (+))) (square3 u) (square3 v))) ! t
    = map2 (map2 (map2 speed)) u v ! t" .
qed

lemma era_grid_shape3: "era_grid d \<Longrightarrow> shape3 (era_u d) = shape3 (era_v d)"
proof -
  assume g: "era_grid d"
  then have len: "length (era_u d) = length (era_v d)" by (simp add: era_grid_def)
  have "shape2 (era_u d ! t) = shape2 (era_v d ! t)" if "t < length (era_u d)" for t
  proof -
    have "has_shape (era_u d ! t) (length (latitude d)) (length (longitude d))"
      and "has_shape (era_v d ! t) (length (latitude d)) (length (longitude d))"
      using g that len by (simp_all add: era_grid_def list_all_length)
    then show ?thesis by (rule has_shape_shape2)
  qed
  with len show ?thesis unfolding shape3_def by (intro nth_equalityI) simp_all
qed

lemma shape3_square3: "shape3 (square3 u) = shape3 u"
  by (simp add: shape3_def square3_def shape2_def[abs_def] square2_def[abs_def] o_def)

lemma era_windspeed_getitem:
  assumes "era_grid d"
  shows "era_windspeed d year = getitem (map2 (map2 (map2 speed)) (era_u d) (era_v d)) (year - 1979)"
proof -
  have "shape3 (square3 (era_u d)) = shape3 (square3 (era_v d))"
    using era_grid_shape3[OF assms] by (simp only: shape3_square3)
  then have "add3 (square3 (era_u d)) (square3 (era_v d)) =
      Inr (map2 (map2 (map2 (+))) (square3 (era_u d)) (square3 (era_v d)))"
    by (simp add: add3_def)
  then show ?thesis
    unfolding era_windspeed_def by (simp only: sum.case era_speed3)
qed

section \<open>What the two loads return\<close>

lemma shiftgrid_Inr_spans: "shiftgrid x w lons st c = Inr r \<Longrightarrow> spans lons x"
  by (auto simp: shiftgrid_def spans_def split: if_splits)

lemma shift_bound: "lons \<noteq> [] \<Longrightarrow> nearest lons x + start_index lons c \<le> length lons"
  using nearest_less[of lons x] start_index_le[of lons c] by linarith

lemma has_shape_shift:
  assumes "has_shape w m n" "i0 + si \<le> n"
  shows "has_shape (map (shift_row i0 si) w) m n"
  using assms by (auto simp: has_shape_def list_all_iff shift_row_length)

lemma shifted_lon_length:
  assumes "lons \<noteq> []"
  shows "length (map (\<lambda>y. y - c) (drop (nearest lons x) lons) @
           take (nearest lons x) (drop (start_index lons c) lons)) = length lons"
  using shift_bound[OF assms, of x c] by simp

lemma has_shape_map: "has_shape w m n \<Longrightarrow> has_shape (map (map f) w) m n"
  by (simp add: has_shape_def list_all_iff)

lemma has_shape_map2: "has_shape a m n \<Longrightarrow> has_shape b m n \<Longrightarrow> has_shape (map2 (map2 f) a b) m n"
  by (auto simp: has_shape_def list_all_length)

lemma has_shape_list_all: "has_shape w m n \<Longrightarrow> list_all (\<lambda>row. length row = n) w"
  by (simp add: has_shape_def)

lemma GFS_load_ok:
  assumes "gfs_grid c" "spans (gfs_lon c) 180"
  shows "GFS_load c = Inr \<lparr>lon = map (\<lambda>y. y - 360) (drop (nearest (gfs_lon c) 180) (gfs_lon c)) @
                            take (nearest (gfs_lon c) 180) (drop (start_index (gfs_lon c) 360) (gfs_lon c)),
                      lat = gfs_lat c,
                      windspeed = map (shift_row (nearest (gfs_lon c) 180) (start_index (gfs_lon c) 360))
                                    (map (map (\<lambda>x. 3.6 * \<bar>x\<bar>)) (ugrdtrop c))\<rparr>"
proof -
  from assms(1) have sh: "shape2 (ugrdtrop c) = shape2 (vgrdtrop c)"
    by (auto simp: gfs_grid_def intro: has_shape_shape2)
  have "has_shape (map (map (\<lambda>x. 3.6 * \<bar>x\<bar>)) (ugrdtrop c)) (length (gfs_lat c)) (length (gfs_lon c))"
    using assms(1) by (simp add: gfs_grid_def has_shape_map)
  then have "list_all (\<lambda>row. length row = length (gfs_lon c)) (map (map (\<lambda>x. 3.6 * \<bar>x\<bar>)) (ugrdtrop c))"
    by (rule has_shape_list_all)
  from shiftgrid_ok[OF assms(2) this, of 360] gfs_windspeed_ok[OF sh]
  show ?thesis by (simp add: GFS_load_def)
qed

lemma GFS_load_spans: "GFS_load c = Inr f \<Longrightarrow> spans (gfs_lon c) 180"
  by (auto simp: GFS_load_def split: sum.splits dest: shiftgrid_Inr_spans)

lemma ERA_load_spans: "ERA_load d year = Inr f \<Longrightarrow> spans (longitude d) 180"
  by (auto simp: ERA_load_def split: sum.splits dest: shiftgrid_Inr_spans)

lemma era_slice_shape:
  assumes "era_grid d" "k < length (era_u d)"
  shows "has_shape (map2 (map2 speed) (era_u d ! k) (era_v d ! k)) (length (latitude d)) (length (longitude d))"
  using assms by (intro has_shape_map2) (simp_all add: era_grid_def list_all_length)

lemma era_windspeed_slice:
  assumes "era_grid d" "k < length (era_u d)"
    and "year - 1979 = int k \<or> year - 1979 = int k - int (length (era_u d))"
  shows "era_windspeed d year = Inr (map2 (map2 speed) (era_u d ! k) (era_v d ! k))"
proof -
  have len: "length (era_u d) = length (era_v d)" using assms(1) by (simp add: era_grid_def)
  from assms(3) show ?thesis
  proof
    assume "year - 1979 = int k"
    then show ?thesis using assms(2) len
      by (simp add: era_windspeed_getitem[OF assms(1)] getitem_def)
  next
    assume y: "year - 1979 = int k - int (length (era_u d))"
    then have "nat (int (length (era_u d)) + (year - 1979)) = k" by simp
    then show ?thesis using assms(2) len y
      by (simp add: era_windspeed_getitem[OF assms(1)] getitem_def)
  qed
qed

lemma era_windspeed_IndexError:
  assumes "era_grid d"
    and "int (length (era_u d)) \<le> year - 1979 \<or> year - 1979 < - int (length (era_u d))"
  shows "era_windspeed d year = Inl IndexError"
proof -
  have len: "length (era_u d) = length (era_v d)" using assms(1) by (simp add: era_grid_def)
  show ?thesis using assms(2) len
    by (auto simp add: era_windspeed_getitem[OF assms(1)] getitem_def)
qed

lemma ERA_load_ok:
  assumes "era_grid d" "spans (longitude d) 180" "k < length (era_u d)"
    and "year - 1979 = int k \<or> year - 1979 = int k - int (length (era_u d))"
  shows "ERA_load d year = Inr \<lparr>lon = map (\<lambda>y. y - 360) (drop (nearest (longitude d) 180) (longitude d)) @
                            take (nearest (longitude d) 180) (drop (start_index (longitude d) 360) (longitude d)),
                      lat = latitude d,
                      windspeed = map (shift_row (nearest (longitude d) 180) (start_index (longitude d) 360))
                                    (map2 (map2 speed) (era_u d ! k) (era_v d ! k))\<rparr>"
proof -
  have "list_all (\<lambda>row. length row = length (longitude d)) (map2 (map2 speed) (era_u d ! k) (era_v d ! k))"
    using era_slice_shape[OF assms(1,3)] by (rule has_shape_list_all)
  from shiftgrid_ok[OF assms(2) this, of 360] era_windspeed_slice[OF assms(1,3,4)]
  show ?thesis by (simp add: ERA_load_def)
qed

lemma ERA_load_IndexError:
  assumes "era_grid d"
    and "int (length (era_u d)) \<le> year - 1979 \<or> year - 1979 < - int (length (era_u d))"
  shows "ERA_load d year = Inl IndexError"
  using era_windspeed_IndexError[OF assms] by (simp add: ERA_load_def)

section \<open>The shift of a 0 to 360 degree grid\<close>







section \<open>The grid shift of the two loads\<close>



lemma example_gfs_grid: "gfs_grid example_gfs"
  by (simp add: gfs_grid_def has_shape_def example_gfs_def)

lemma example_era_grid: "era_grid example_era"
  by (simp add: era_grid_def has_shape_def example_era_def)





section \<open>The wind speed and the year of an ERA load\<close>

lemma new_ERA:
  "new env s ERAJetStreamData (Year year) =
     (case era_fetch env year of Inl e \<Rightarrow> Inl e | Inr f \<Rightarrow> Inr (bind_attributes s f))"
  by (simp add: new_def resolve_def ERAJetStreamData_load_def)

lemma new_GFS:
  "new env s GFSJetStreamData (Url url) =
     (case gfs_fetch env url of Inl e \<Rightarrow> Inl e | Inr f \<Rightarrow> Inr (bind_attributes s f))"
  by (simp add: new_def resolve_def GFSJetStreamData_load_def)










text \<open>
  C8 (a year before 1979 does not raise: the negative index selects a slice counted
  from the end; only years at or beyond 1979 plus the number of slices raise
  IndexError). The first part holds; the second does not, because an index below minus
  the number of slices raises IndexError as well (\<open>ERA_year_range_counterexample\<close>:
  two slices, year 1976). For a file with \<open>T\<close> aligned slices whose longitudes span
  180: constructing raises IndexError exactly for the years below \<open>1979 - T\<close> and the
  years from \<open>1979 + T\<close>, and a year from \<open>1979 - T\<close> up to 1978 is constructed, with
  the fields of the year \<open>T\<close> later.
\<close>

theorem ERA_year_range:
  assumes "Dataset env year = Inr d" and "era_grid d" and "spans (longitude d) 180"
  shows "(new env s ERAJetStreamData (Year year) = Inl IndexError \<longleftrightarrow>
            year < 1979 - int (length (era_u d)) \<or> 1979 + int (length (era_u d)) \<le> year) \<and>
         (1979 - int (length (era_u d)) \<le> year \<and> year < 1979 \<longrightarrow>
            (\<exists>r. new env s ERAJetStreamData (Year year) = Inr r) \<and>
            ERA_load d year = ERA_load d (year + int (length (era_u d))))"
proof -
  let ?T = "int (length (era_u d))"
  have fetch: "era_fetch env year = ERA_load d year" using assms(1) by (simp add: era_fetch_def)
  have out: "new env s ERAJetStreamData (Year year) = Inl IndexError"
    if "year < 1979 - ?T \<or> 1979 + ?T \<le> year"
  proof -
    from that have "?T \<le> year - 1979 \<or> year - 1979 < - ?T" by auto
    with assms(2) have "ERA_load d year = Inl IndexError" by (rule ERA_load_IndexError)
    then show ?thesis by (simp add: new_ERA fetch)
  qed
  have inside: "\<exists>f. ERA_load d year = Inr f" if "1979 - ?T \<le> year" "year < 1979 + ?T"
  proof -
    define k where "k = (if 1979 \<le> year then nat (year - 1979) else nat (year - 1979 + ?T))"
    have "k < length (era_u d)" "year - 1979 = int k \<or> year - 1979 = int k - ?T"
      using that by (auto simp: k_def)
    with assms(2,3) show ?thesis by (simp add: ERA_load_ok)
  qed
  have ok: "\<exists>r. new env s ERAJetStreamData (Year year) = Inr r"
    if "1979 - ?T \<le> year" "year < 1979 + ?T"
    using inside[OF that] by (auto simp: new_ERA fetch)
  have wrap: "ERA_load d year = ERA_load d (year + ?T)" if "1979 - ?T \<le> year" "year < 1979"
  proof -
    let ?k = "nat (year - 1979 + ?T)"
    have k: "?k < length (era_u d)" using that by simp
    have "year - 1979 = int ?k \<or> year - 1979 = int ?k - ?T" using that by simp
    moreover have "year + ?T - 1979 = int ?k \<or> year + ?T - 1979 = int ?k - ?T" using that by simp
    ultimately show ?thesis using assms(2,3) k by (simp add: ERA_load_ok)
  qed
  show ?thesis
  proof (intro conjI iffI impI)
    assume "new env s ERAJetStreamData (Year year) = Inl IndexError"
    then show "year < 1979 - ?T \<or> 1979 + ?T \<le> year" using ok by fastforce
  next
    assume "year < 1979 - ?T \<or> 1979 + ?T \<le> year"
    then show "new env s ERAJetStreamData (Year year) = Inl IndexError" by (rule out)
  next
    assume "1979 - ?T \<le> year \<and> year < 1979"
    then show "\<exists>r. new env s ERAJetStreamData (Year year) = Inr r" using ok by simp
  next
    assume "1979 - ?T \<le> year \<and> year < 1979"
    then show "ERA_load d year = ERA_load d (year + ?T)" using wrap by simp
  qed
qed

theorem ERA_year_range_witness:
  "new example_env empty_store ERAJetStreamData (Year 1978) \<noteq> Inl IndexError \<and>
   (\<exists>r. new example_env empty_store ERAJetStreamData (Year 1978) = Inr r) \<and>
   ERA_load example_era 1978 = ERA_load example_era 1980"
proof -
  have "Dataset example_env 1978 = Inr example_era" by (simp add: example_env_def)
  moreover have "spans (longitude example_era) 180" by (simp add: example_era_def spans_def)
  ultimately show ?thesis
    using ERA_year_range[of example_env 1978 example_era empty_store] example_era_grid
    by (simp add: example_era_def)
qed

theorem ERA_year_range_counterexample:
  "new example_env empty_store ERAJetStreamData (Year 1976) = Inl IndexError \<and>
   (1976::int) < 1979 + int (length (era_u example_era))"
  by (simp add: new_ERA era_fetch_def example_env_def example_era_def ERA_load_def
      era_windspeed_def np_defs)

section \<open>Objects in the store\<close>

subsection \<open>Binding the attributes\<close>

lemma bind_top: "top (fst (bind_attributes s f)) = top s + 3"
  by (simp add: bind_attributes_def alloc_def)

lemma bind_obj:
  "snd (bind_attributes s f) =
     \<lparr>lon_at = top s, lat_at = Suc (top s), windspeed_at = Suc (Suc (top s))\<rparr>"
  by (simp add: bind_attributes_def alloc_def)

lemma bind_cell_old: "a < top s \<Longrightarrow> cell (fst (bind_attributes s f)) a = cell s a"
  by (simp add: bind_attributes_def alloc_def)

lemma bind_holds: "holds (fst (bind_attributes s f)) (snd (bind_attributes s f)) f"
  by (simp add: bind_attributes_def alloc_def holds_def)

lemma bind_allocated: "allocated (fst (bind_attributes s f)) (snd (bind_attributes s f))"
  by (simp add: allocated_def addrs_def bind_top bind_obj)

lemma bind_addrs: "addrs (snd (bind_attributes s f)) = [top s, Suc (top s), Suc (Suc (top s))]"
  by (simp add: addrs_def bind_obj)

lemma allocated_mono: "allocated s ob \<Longrightarrow> top s \<le> top s' \<Longrightarrow> allocated s' ob"
  by (auto simp: allocated_def list_all_iff)

lemma holds_mono:
  "holds s ob f \<Longrightarrow> allocated s ob \<Longrightarrow> (\<And>a. a < top s \<Longrightarrow> cell s' a = cell s a) \<Longrightarrow> holds s' ob f"
  by (simp add: holds_def allocated_def addrs_def)

lemma separate_snoc:
  assumes "separate obs" "list_all (allocated s) obs"
  shows "separate (obs @ [snd (bind_attributes s f)])"
proof -
  have "a < top s" if "a \<in> set (concat (map addrs obs))" for a
    using that assms(2) by (auto simp: allocated_def list_all_iff)
  then have "set (concat (map addrs obs)) \<inter> {top s, Suc (top s), Suc (Suc (top s))} = {}"
    by fastforce
  then show ?thesis using assms(1) by (simp add: separate_def bind_addrs)
qed

subsection \<open>The loading loop\<close>

lemma load_days_Cons:
  "load_days env s sd (day # ds) =
     (case gfs_fetch env (gfs_url day) of
        Inl e \<Rightarrow> Inl e
      | Inr f \<Rightarrow> load_days env (fst (bind_attributes s f)) (sd @ [snd (bind_attributes s f)]) ds)"
  by (simp add: new_GFS split: sum.split prod.split)

declare load_days.simps(2) [simp del]

lemma load_days_inv:
  assumes "load_days env s sd ds = Inr (s', sd')" "list_all (allocated s) sd" "separate sd"
  shows "list_all (allocated s') sd' \<and> separate sd' \<and> top s \<le> top s' \<and>
         (\<forall>a<top s. cell s' a = cell s a) \<and> length sd' = length sd + length ds"
  using assms
proof (induction ds arbitrary: s sd)
  case Nil
  then show ?case by simp
next
  case (Cons day ds)
  from Cons.prems(1) obtain f where f: "gfs_fetch env (gfs_url day) = Inr f"
    and rec: "load_days env (fst (bind_attributes s f)) (sd @ [snd (bind_attributes s f)]) ds = Inr (s', sd')"
    by (auto simp: load_days_Cons split: sum.splits)
  let ?s1 = "fst (bind_attributes s f)" and ?ob = "snd (bind_attributes s f)"
  have t: "top s \<le> top ?s1" by (simp add: bind_top)
  have a1: "list_all (allocated ?s1) (sd @ [?ob])"
    using Cons.prems(2) t by (auto simp: list_all_iff bind_allocated intro: allocated_mono)
  have s1: "separate (sd @ [?ob])" using Cons.prems(3,2) by (rule separate_snoc)
  from Cons.IH[OF rec a1 s1] t show ?case by (auto simp: bind_cell_old)
qed

lemma load_days_holds:
  assumes "load_days env s sd ds = Inr (s', sd')" "list_all (allocated s) sd" "separate sd"
    and "list_all2 (holds s) sd fs"
    and "\<forall>day\<in>set ds. gfs_fetch env (gfs_url day) = Inr (f day)"
  shows "list_all2 (holds s') sd' (fs @ map f ds)"
  using assms
proof (induction ds arbitrary: s sd fs)
  case Nil
  then show ?case by simp
next
  case (Cons day ds)
  from Cons.prems(5) have f: "gfs_fetch env (gfs_url day) = Inr (f day)" by simp
  let ?s1 = "fst (bind_attributes s (f day))" and ?ob = "snd (bind_attributes s (f day))"
  from Cons.prems(1) f have rec: "load_days env ?s1 (sd @ [?ob]) ds = Inr (s', sd')"
    by (simp add: load_days_Cons)
  have t: "top s \<le> top ?s1" by (simp add: bind_top)
  have a1: "list_all (allocated ?s1) (sd @ [?ob])"
    using Cons.prems(2) t by (auto simp: list_all_iff bind_allocated intro: allocated_mono)
  have s1: "separate (sd @ [?ob])" using Cons.prems(3,2) by (rule separate_snoc)
  have "list_all2 (holds ?s1) sd fs"
    unfolding list_all2_conv_all_nth
  proof (intro conjI allI impI)
    show "length sd = length fs" using Cons.prems(4) by (rule list_all2_lengthD)
  next
    fix i assume i: "i < length sd"
    then have "holds s (sd ! i) (fs ! i)"
      using Cons.prems(4) by (simp add: list_all2_conv_all_nth)
    moreover have "allocated s (sd ! i)" using i Cons.prems(2) by (simp add: list_all_length)
    ultimately show "holds ?s1 (sd ! i) (fs ! i)"
      by (rule holds_mono) (simp add: bind_cell_old)
  qed
  then have h1: "list_all2 (holds ?s1) (sd @ [?ob]) (fs @ [f day])"
    by (simp add: list_all2_appendI bind_holds)
  from Cons.prems(5) have "\<forall>day\<in>set ds. gfs_fetch env (gfs_url day) = Inr (f day)" by simp
  from Cons.IH[OF rec a1 s1 h1 this] show ?case by simp
qed

lemma load_days_ok:
  assumes "\<forall>day\<in>set ds. \<exists>f. gfs_fetch env (gfs_url day) = Inr f"
  shows "\<exists>s' sd'. load_days env s sd ds = Inr (s', sd')"
  using assms
proof (induction ds arbitrary: s sd)
  case Nil
  then show ?case by simp
next
  case (Cons day ds)
  then obtain f where "gfs_fetch env (gfs_url day) = Inr f" by auto
  with Cons show ?case by (simp add: load_days_Cons)
qed

lemma load_days_fetched:
  assumes "load_days env s sd ds = Inr (s', sd')"
  shows "\<forall>day\<in>set ds. \<exists>f. gfs_fetch env (gfs_url day) = Inr f"
  using assms
proof (induction ds arbitrary: s sd)
  case Nil
  then show ?case by simp
next
  case (Cons day ds)
  from Cons.prems obtain f where f: "gfs_fetch env (gfs_url day) = Inr f"
    and rec: "load_days env (fst (bind_attributes s f)) (sd @ [snd (bind_attributes s f)]) ds = Inr (s', sd')"
    by (auto simp: load_days_Cons split: sum.splits)
  from Cons.IH[OF rec] f show ?case by auto
qed

lemma load_days_fail:
  assumes "\<forall>day\<in>set pre. \<exists>f. gfs_fetch env (gfs_url day) = Inr f"
    and "gfs_fetch env (gfs_url day) = Inl e"
  shows "load_days env s sd (pre @ day # post) = Inl e"
  using assms
proof (induction pre arbitrary: s sd)
  case Nil
  then show ?case by (simp add: load_days_Cons)
next
  case (Cons d pre)
  then obtain f where "gfs_fetch env (gfs_url d) = Inr f" by auto
  with Cons show ?case by (simp add: load_days_Cons)
qed

subsection \<open>The accumulation loop\<close>

lemma iadd_frame:
  "iadd s a b = Inr s' \<Longrightarrow> top s' = top s \<and> (\<forall>c. c \<noteq> a \<longrightarrow> cell s' c = cell s c)"
  by (auto simp: iadd_def split: sum.splits)

lemma accumulate_frame:
  "accumulate s first rest = Inr s' \<Longrightarrow>
     top s' = top s \<and> (\<forall>a. a \<noteq> windspeed_at first \<longrightarrow> cell s' a = cell s a)"
proof (induction rest arbitrary: s)
  case Nil
  then show ?case by simp
next
  case (Cons data rest)
  from Cons.prems obtain s1 where 1: "iadd s (windspeed_at first) (windspeed_at data) = Inr s1"
    and 2: "accumulate s1 first rest = Inr s'"
    by (auto split: sum.splits)
  from iadd_frame[OF 1] Cons.IH[OF 2] show ?case by simp
qed

lemma shape2_plus2: "shape2 x = shape2 y \<Longrightarrow> shape2 (plus2 x y) = shape2 x"
proof -
  assume eq: "shape2 x = shape2 y"
  then have len: "length x = length y" unfolding shape2_def by (rule map_eq_imp_length_eq)
  have "length (x ! i) = length (y ! i)" if "i < length x" for i
    using that eq len unfolding shape2_def by (metis nth_map)
  then show ?thesis using len
    unfolding shape2_def plus2_def by (intro nth_equalityI) simp_all
qed

lemma plus2_nth:
  assumes "shape2 x = shape2 y" "i < length x" "j < length (x ! i)"
  shows "plus2 x y ! i ! j = x ! i ! j + y ! i ! j"
proof -
  from assms(1) have len: "length x = length y" unfolding shape2_def by (rule map_eq_imp_length_eq)
  have "length (x ! i) = length (y ! i)"
    using assms(1,2) len unfolding shape2_def by (metis nth_map)
  then show ?thesis using assms(2,3) len by (simp add: plus2_def)
qed

lemma iadd_Array2:
  assumes "cell s a = Array2 x" "cell s b = Array2 y" "shape2 x = shape2 y"
  shows "iadd s a b = Inr (s\<lparr>cell := (cell s)(a := Array2 (plus2 x y))\<rparr>)"
  using assms by (simp add: iadd_def add2_def plus2_def)

lemma iadd_shape:
  assumes "iadd s a b = Inr s'" "cell s a = Array2 x"
  shows "\<exists>x'. cell s' a = Array2 x' \<and> shape2 x' = shape2 x"
proof (cases "cell s b")
  case (Array1 y)
  with assms show ?thesis by (simp add: iadd_def)
next
  case (Array2 y)
  with assms have eq: "shape2 x = shape2 y"
    by (auto simp: iadd_def add2_def split: if_splits)
  from iadd_Array2[OF assms(2) Array2 eq] assms(1) shape2_plus2[OF eq] show ?thesis by auto
qed

lemma accumulate_shape:
  assumes "accumulate s first rest = Inr s'" "cell s (windspeed_at first) = Array2 A"
  shows "\<exists>A'. cell s' (windspeed_at first) = Array2 A' \<and> shape2 A' = shape2 A"
  using assms
proof (induction rest arbitrary: s A)
  case Nil
  then show ?case by simp
next
  case (Cons data rest)
  from Cons.prems(1) obtain s1 where 1: "iadd s (windspeed_at first) (windspeed_at data) = Inr s1"
    and 2: "accumulate s1 first rest = Inr s'"
    by (auto split: sum.splits)
  from iadd_shape[OF 1 Cons.prems(2)] obtain A1
    where A1: "cell s1 (windspeed_at first) = Array2 A1" "shape2 A1 = shape2 A" by auto
  from Cons.IH[OF 2 A1(1)] A1(2) show ?case by auto
qed

lemma accumulate_sum:
  assumes "cell s (windspeed_at first) = Array2 A"
    and "list_all2 (\<lambda>ob w. cell s (windspeed_at ob) = Array2 w \<and> shape2 w = shape2 A \<and>
                          windspeed_at ob \<noteq> windspeed_at first) rest ws"
  shows "\<exists>s'. accumulate s first rest = Inr s' \<and>
              cell s' (windspeed_at first) = Array2 (foldl plus2 A ws)"
  using assms
proof (induction rest arbitrary: s A ws)
  case Nil
  then show ?case by simp
next
  case (Cons data rest)
  from Cons.prems(2) obtain w ws' where ws: "ws = w # ws'"
    and d: "cell s (windspeed_at data) = Array2 w" "shape2 w = shape2 A"
           "windspeed_at data \<noteq> windspeed_at first"
    and r: "list_all2 (\<lambda>ob w. cell s (windspeed_at ob) = Array2 w \<and> shape2 w = shape2 A \<and>
                          windspeed_at ob \<noteq> windspeed_at first) rest ws'"
    by (auto simp: list_all2_Cons1)
  let ?s1 = "s\<lparr>cell := (cell s)(windspeed_at first := Array2 (plus2 A w))\<rparr>"
  have 1: "iadd s (windspeed_at first) (windspeed_at data) = Inr ?s1"
    using Cons.prems(1) d(1) d(2) by (intro iadd_Array2) simp_all
  have A1: "cell ?s1 (windspeed_at first) = Array2 (plus2 A w)" by simp
  have sh: "shape2 (plus2 A w) = shape2 A" using d(2) by (intro shape2_plus2) simp
  have r1: "list_all2 (\<lambda>ob w'. cell ?s1 (windspeed_at ob) = Array2 w' \<and>
                shape2 w' = shape2 (plus2 A w) \<and> windspeed_at ob \<noteq> windspeed_at first) rest ws'"
    using r sh by (auto elim!: list_all2_mono)
  from Cons.IH[OF A1 r1] 1 ws show ?case by simp
qed

lemma foldl_plus2_shape:
  "\<forall>w\<in>set ws. shape2 w = shape2 A \<Longrightarrow> shape2 (foldl plus2 A ws) = shape2 A"
proof (induction ws arbitrary: A)
  case Nil
  then show ?case by simp
next
  case (Cons w ws)
  then have sh: "shape2 (plus2 A w) = shape2 A" by (intro shape2_plus2) simp
  with Cons.prems have "\<forall>w'\<in>set ws. shape2 w' = shape2 (plus2 A w)" by simp
  from Cons.IH[OF this] sh show ?case by simp
qed

lemma foldl_plus2_nth:
  assumes "\<forall>w\<in>set ws. shape2 w = shape2 A" "i < length A" "j < length (A ! i)"
  shows "foldl plus2 A ws ! i ! j = A ! i ! j + (\<Sum>w\<leftarrow>ws. w ! i ! j)"
  using assms
proof (induction ws arbitrary: A)
  case Nil
  then show ?case by simp
next
  case (Cons w ws)
  then have eq: "shape2 A = shape2 w" by simp
  have sh: "shape2 (plus2 A w) = shape2 A" using eq by (rule shape2_plus2)
  then have len: "length (plus2 A w) = length A" "length (plus2 A w ! i) = length (A ! i)"
    using Cons.prems(2) unfolding shape2_def
    by (metis length_map, metis length_map nth_map)
  have 1: "\<forall>w'\<in>set ws. shape2 w' = shape2 (plus2 A w)" using Cons.prems(1) sh by simp
  have "foldl plus2 (plus2 A w) ws ! i ! j = plus2 A w ! i ! j + (\<Sum>w\<leftarrow>ws. w ! i ! j)"
    using 1 Cons.prems(2,3) len by (intro Cons.IH) simp_all
  then show ?case using plus2_nth[OF eq Cons.prems(2,3)] by simp
qed

subsection \<open>The division\<close>

lemma average_Cons:
  "average s (first # rest) =
     Inr (s\<lparr>cell := (cell s)(top s := divide_array (cell s (windspeed_at first)) (real (length days))),
            top := Suc (top s)\<rparr>,
          first\<lparr>windspeed_at := top s\<rparr> # rest)"
  by (simp add: average_def alloc_def)

lemma length_days: "length days = 16"
  by (simp add: days_def)

lemma days_Cons: "days = 1 # [2..<17]"
  by (simp add: days_def upt_conv_Cons)

lemma shape2_divide2: "shape2 (divide2 a c) = shape2 a"
  by (simp add: shape2_def divide2_def)

lemma divide2_nth: "i < length a \<Longrightarrow> j < length (a ! i) \<Longrightarrow> divide2 a c ! i ! j = a ! i ! j / c"
  by (simp add: divide2_def)

subsection \<open>The state after the loops\<close>

lemma shape2_eq_lengths:
  assumes "shape2 a = shape2 b"
  shows "length a = length b" "i < length a \<Longrightarrow> length (a ! i) = length (b ! i)"
proof -
  show len: "length a = length b" using assms unfolding shape2_def by (rule map_eq_imp_length_eq)
  show "length (a ! i) = length (b ! i)" if "i < length a"
    using that assms len unfolding shape2_def by (metis nth_map)
qed

lemma separate_Cons:
  assumes "separate (first # rest)" "data \<in> set rest"
  shows "lon_at data \<noteq> windspeed_at first" "lat_at data \<noteq> windspeed_at first"
    "windspeed_at data \<noteq> windspeed_at first"
    "lon_at first \<noteq> windspeed_at first" "lat_at first \<noteq> windspeed_at first"
proof -
  from assms(1) have d: "distinct (addrs first)"
    and i: "set (addrs first) \<inter> set (concat (map addrs rest)) = {}"
    by (simp_all add: separate_def)
  have "set (addrs data) \<subseteq> set (concat (map addrs rest))" using assms(2) by auto
  with i have "windspeed_at first \<notin> set (addrs data)" by (auto simp: addrs_def)
  then show "lon_at data \<noteq> windspeed_at first" "lat_at data \<noteq> windspeed_at first"
    "windspeed_at data \<noteq> windspeed_at first"
    by (auto simp: addrs_def)
  from d show "lon_at first \<noteq> windspeed_at first" "lat_at first \<noteq> windspeed_at first"
    by (auto simp: addrs_def)
qed

lemma loaded_state:
  assumes "\<forall>day\<in>set ds. gfs_fetch env (gfs_url day) = Inr (f day)"
  shows "\<exists>s1 sd. load_days env s [] ds = Inr (s1, sd) \<and> list_all (allocated s1) sd \<and>
           separate sd \<and> list_all2 (holds s1) sd (map f ds)"
proof -
  from assms have "\<forall>day\<in>set ds. \<exists>g. gfs_fetch env (gfs_url day) = Inr g" by simp
  then obtain s1 sd where l: "load_days env s [] ds = Inr (s1, sd)"
    using load_days_ok by blast
  have e: "list_all (allocated s) []" "separate []" "list_all2 (holds s) [] []"
    by (simp_all add: separate_def)
  from load_days_inv[OF l e(1,2)] load_days_holds[OF l e assms] l show ?thesis by auto
qed

lemma accumulated_state:
  assumes "\<forall>day\<in>set (d1 # drest). gfs_fetch env (gfs_url day) = Inr (f day) \<and>
             shape2 (windspeed (f day)) = shp"
  shows "\<exists>s1 first rest s2.
           load_days env s [] (d1 # drest) = Inr (s1, first # rest) \<and>
           accumulate s1 first rest = Inr s2 \<and>
           cell s2 (windspeed_at first) =
             Array2 (foldl plus2 (windspeed (f d1)) (map (\<lambda>d. windspeed (f d)) drest)) \<and>
           list_all (allocated s1) (first # rest) \<and> separate (first # rest)"
proof -
  from assms have "\<forall>day\<in>set (d1 # drest). gfs_fetch env (gfs_url day) = Inr (f day)" by simp
  from loaded_state[OF this, of s] obtain s1 sd
    where l: "load_days env s [] (d1 # drest) = Inr (s1, sd)"
      and al: "list_all (allocated s1) sd"
      and sep: "separate sd" and h: "list_all2 (holds s1) sd (map f (d1 # drest))"
    by blast
  from h obtain first rest where sd: "sd = first # rest"
    and h1: "holds s1 first (f d1)" and hr: "list_all2 (holds s1) rest (map f drest)"
    by (auto simp: list_all2_Cons2)
  have A: "cell s1 (windspeed_at first) = Array2 (windspeed (f d1))"
    using h1 by (simp add: holds_def)
  have len: "length rest = length drest" using hr by (auto dest: list_all2_lengthD)
  have "list_all2 (\<lambda>ob w. cell s1 (windspeed_at ob) = Array2 w \<and>
           shape2 w = shape2 (windspeed (f d1)) \<and> windspeed_at ob \<noteq> windspeed_at first)
         rest (map (\<lambda>d. windspeed (f d)) drest)"
    unfolding list_all2_conv_all_nth
  proof (intro conjI allI impI)
    show "length rest = length (map (\<lambda>d. windspeed (f d)) drest)" using len by simp
  next
    fix k assume k: "k < length rest"
    then have kd: "k < length drest" using len by simp
    have "holds s1 (rest ! k) (map f drest ! k)"
      using hr k by (rule list_all2_nthD)
    then show "cell s1 (windspeed_at (rest ! k)) = Array2 (map (\<lambda>d. windspeed (f d)) drest ! k)"
      using kd by (simp add: holds_def)
    have "drest ! k \<in> set (d1 # drest)" using kd by simp
    then have "shape2 (windspeed (f (drest ! k))) = shp" using assms by blast
    moreover have "shape2 (windspeed (f d1)) = shp" using assms by simp
    ultimately show "shape2 (map (\<lambda>d. windspeed (f d)) drest ! k) = shape2 (windspeed (f d1))"
      using kd by simp
    show "windspeed_at (rest ! k) \<noteq> windspeed_at first"
    proof (rule separate_Cons(3))
      show "separate (first # rest)" using sep unfolding sd .
      show "rest ! k \<in> set rest" using k by (rule nth_mem)
    qed
  qed
  from accumulate_sum[OF A this] l al sep sd show ?thesis by auto
qed

lemma example_gfs_load:
  "GFS_load example_gfs =
     Inr \<lparr>lon = [- 180, - 90, 0, 90], lat = [45], windspeed = [[3.6, 0, 3.6, 0]]\<rparr>"
  by (simp add: example_gfs_def GFS_load_def gfs_windspeed_def np_defs)

lemma example_gfs_fetch:
  "gfs_fetch example_env url =
     Inr \<lparr>lon = [- 180, - 90, 0, 90], lat = [45], windspeed = [[3.6, 0, 3.6, 0]]\<rparr>"
  by (simp add: gfs_fetch_def example_env_def example_gfs_load)

text \<open>
  C4 (after the accumulation loop and the division of \<^verbatim>\<open>plot_gfs_average\<close>, the wind
  speed of the first dataset is the mean of the 16 daily fields). When each of the 16
  loads succeeds with the fields \<open>f day\<close>, all wind speeds of one shape, the state
  before the map is created exists, the wind speed of the first dataset has that
  shape, and each of its entries is the sum of the 16 daily entries divided by 16.
\<close>

theorem gfs_average_mean:
  assumes "\<forall>day\<in>set days. gfs_fetch env (gfs_url day) = Inr (f day) \<and>
             shape2 (windspeed (f day)) = shp"
  shows "\<exists>s' first rest w.
           gfs_average env s = Inr (s', first # rest) \<and>
           cell s' (windspeed_at first) = Array2 w \<and> shape2 w = shp \<and>
           (\<forall>i<length w. \<forall>j<length (w ! i).
              w ! i ! j = (\<Sum>day\<leftarrow>days. windspeed (f day) ! i ! j) / 16)"
proof -
  define drest where "drest = [2..<17]"
  have dc: "days = 1 # drest" by (simp only: drest_def days_Cons)
  let ?A = "windspeed (f 1)" and ?ws = "map (\<lambda>d. windspeed (f d)) drest"
  let ?X = "foldl plus2 ?A ?ws"
  have hyp: "\<forall>day\<in>set (1 # drest). gfs_fetch env (gfs_url day) = Inr (f day) \<and>
             shape2 (windspeed (f day)) = shp"
    using assms unfolding dc .
  from accumulated_state[OF hyp, of s] obtain s1 first rest s2
    where l: "load_days env s [] days = Inr (s1, first # rest)"
      and a: "accumulate s1 first rest = Inr s2"
      and c: "cell s2 (windspeed_at first) = Array2 ?X"
    unfolding dc by blast
  let ?s3 = "s2\<lparr>cell := (cell s2)(top s2 := divide_array (cell s2 (windspeed_at first))
                                              (real (length days))),
               top := Suc (top s2)\<rparr>"
  let ?w = "divide2 ?X 16"
  have avg: "gfs_average env s = Inr (?s3, first\<lparr>windspeed_at := top s2\<rparr> # rest)"
    using l a by (simp add: gfs_average_def average_Cons)
  have cw: "cell ?s3 (windspeed_at (first\<lparr>windspeed_at := top s2\<rparr>)) = Array2 ?w"
    using c by (simp add: length_days)
  have all: "\<forall>w\<in>set ?ws. shape2 w = shape2 ?A"
    using hyp by auto
  have shA: "shape2 ?A = shp" using hyp by simp
  have shX: "shape2 ?X = shape2 ?A" using all by (rule foldl_plus2_shape)
  have shw: "shape2 ?w = shp" using shX shA by (simp add: shape2_divide2)
  have elem: "?w ! i ! j = (\<Sum>day\<leftarrow>days. windspeed (f day) ! i ! j) / 16"
    if "i < length ?w" "j < length (?w ! i)" for i j
  proof -
    have wX: "shape2 ?w = shape2 ?X" by (rule shape2_divide2)
    have i: "i < length ?X" "j < length (?X ! i)"
      using that shape2_eq_lengths[OF wX] by simp_all
    then have iA: "i < length ?A" "j < length (?A ! i)"
      using shape2_eq_lengths[OF shX] by simp_all
    have "?w ! i ! j = ?X ! i ! j / 16" using i by (rule divide2_nth)
    also have "?X ! i ! j = ?A ! i ! j + (\<Sum>w\<leftarrow>?ws. w ! i ! j)"
      using all iA by (rule foldl_plus2_nth)
    also have "\<dots> = (\<Sum>day\<leftarrow>days. windspeed (f day) ! i ! j)"
      unfolding dc by (simp add: o_def)
    finally show ?thesis .
  qed
  from avg cw shw elem show ?thesis by blast
qed

theorem gfs_average_mean_witness:
  "\<exists>s' first rest w.
     gfs_average example_env empty_store = Inr (s', first # rest) \<and>
     cell s' (windspeed_at first) = Array2 w \<and> shape2 w = [4] \<and>
     (\<forall>i<length w. \<forall>j<length (w ! i).
        w ! i ! j = (\<Sum>day\<leftarrow>days. [[3.6, 0, 3.6, 0]] ! i ! j) / 16)"
  using gfs_average_mean[of example_env
      "\<lambda>day. \<lparr>lon = [- 180, - 90, 0, 90], lat = [45], windspeed = [[3.6, 0, 3.6, 0]]\<rparr>"
      "[4]" empty_store]
  by (simp add: example_gfs_fetch shape2_def)

subsection \<open>Alignment of the loaded fields\<close>

lemma GFS_load_aligned:
  assumes "gfs_grid c" "GFS_load c = Inr f"
  shows "has_shape (windspeed f) (length (lat f)) (length (lon f))"
proof -
  let ?lons = "gfs_lon c"
  have sp: "spans ?lons 180" using assms(2) by (rule GFS_load_spans)
  then have ne: "?lons \<noteq> []" by (simp add: spans_def)
  have "has_shape (map (map (\<lambda>x. 3.6 * \<bar>x\<bar>)) (ugrdtrop c)) (length (gfs_lat c)) (length ?lons)"
    using assms(1) by (simp add: gfs_grid_def has_shape_map)
  then have "has_shape (map (shift_row (nearest ?lons 180) (start_index ?lons 360))
                 (map (map (\<lambda>x. 3.6 * \<bar>x\<bar>)) (ugrdtrop c))) (length (gfs_lat c)) (length ?lons)"
    using shift_bound[OF ne] by (rule has_shape_shift)
  with GFS_load_ok[OF assms(1) sp] assms(2) shifted_lon_length[OF ne, of 360 180]
  show ?thesis by auto
qed

lemma ERA_load_aligned:
  assumes "era_grid d" "ERA_load d year = Inr f"
  shows "has_shape (windspeed f) (length (lat f)) (length (lon f))"
proof -
  let ?lons = "longitude d" and ?T = "int (length (era_u d))"
  have sp: "spans ?lons 180" using assms(2) by (rule ERA_load_spans)
  then have ne: "?lons \<noteq> []" by (simp add: spans_def)
  have rng: "- ?T \<le> year - 1979 \<and> year - 1979 < ?T"
  proof (rule ccontr)
    assume "\<not> ?thesis"
    then have "?T \<le> year - 1979 \<or> year - 1979 < - ?T" by auto
    with assms(1) have "ERA_load d year = Inl IndexError" by (rule ERA_load_IndexError)
    with assms(2) show False by simp
  qed
  define k where "k = (if 0 \<le> year - 1979 then nat (year - 1979) else nat (year - 1979 + ?T))"
  have k: "k < length (era_u d)" "year - 1979 = int k \<or> year - 1979 = int k - ?T"
    using rng by (auto simp: k_def)
  have "has_shape (map2 (map2 speed) (era_u d ! k) (era_v d ! k)) (length (latitude d)) (length ?lons)"
    using assms(1) k(1) by (rule era_slice_shape)
  then have "has_shape (map (shift_row (nearest ?lons 180) (start_index ?lons 360))
                 (map2 (map2 speed) (era_u d ! k) (era_v d ! k))) (length (latitude d)) (length ?lons)"
    using shift_bound[OF ne] by (rule has_shape_shift)
  with ERA_load_ok[OF assms(1) sp k] assms(2) shifted_lon_length[OF ne, of 360 180]
  show ?thesis by auto
qed

lemma gfs_fetch_aligned:
  assumes "\<forall>c. open_url env url = Inr c \<longrightarrow> gfs_grid c" "gfs_fetch env url = Inr f"
  shows "has_shape (windspeed f) (length (lat f)) (length (lon f))"
proof -
  from assms(2) obtain c where "open_url env url = Inr c" "GFS_load c = Inr f"
    by (auto simp: gfs_fetch_def split: sum.splits)
  with assms(1) show ?thesis by (auto intro: GFS_load_aligned)
qed

lemma gfs_average_ok:
  assumes "\<forall>day\<in>set days. gfs_fetch env (gfs_url day) = Inr (f day) \<and>
             shape2 (windspeed (f day)) = shp"
  shows "\<exists>s' first rest. gfs_average env s = Inr (s', first # rest)"
proof -
  define drest where "drest = [2..<17]"
  have dc: "days = 1 # drest" by (simp only: drest_def days_Cons)
  from accumulated_state[OF assms[unfolded dc], of s] obtain s1 first rest s2
    where "load_days env s [] days = Inr (s1, first # rest)"
      and "accumulate s1 first rest = Inr s2"
    unfolding dc by blast
  then show ?thesis by (simp add: gfs_average_def average_Cons)
qed

lemma averaged_aligned:
  assumes "\<forall>day\<in>set days. \<forall>c. open_url env (gfs_url day) = Inr c \<longrightarrow> gfs_grid c"
    and "gfs_average env s = Inr (s', first # rest)"
  shows "aligned s' first"
proof -
  from assms(2) obtain s1 ob rest0 s2
    where l: "load_days env s [] days = Inr (s1, ob # rest0)"
      and a: "accumulate s1 ob rest0 = Inr s2"
      and avg: "average s2 (ob # rest0) = Inr (s', first # rest)"
    by (auto simp: gfs_average_def split: sum.splits list.splits)
  from load_days_fetched[OF l] obtain f
    where f: "\<forall>day\<in>set days. gfs_fetch env (gfs_url day) = Inr (f day)"
    by metis
  from loaded_state[OF f, of s] l
  have al: "list_all (allocated s1) (ob # rest0)" and sep: "separate (ob # rest0)"
    and h: "list_all2 (holds s1) (ob # rest0) (map f days)"
    by auto
  have h1: "holds s1 ob (f 1)" using h by (simp add: days_Cons)
  have "1 \<in> set days" by (simp add: days_def)
  with assms(1) f have sh1: "has_shape (windspeed (f 1)) (length (lat (f 1))) (length (lon (f 1)))"
    by (intro gfs_fetch_aligned[of env "gfs_url 1"]) auto
  from accumulate_shape[OF a] h1 obtain A
    where A: "cell s2 (windspeed_at ob) = Array2 A" "shape2 A = shape2 (windspeed (f 1))"
    by (auto simp: holds_def)
  from accumulate_frame[OF a] have top2: "top s2 = top s1"
    and same: "\<And>a. a \<noteq> windspeed_at ob \<Longrightarrow> cell s2 a = cell s1 a" by auto
  have ne: "lon_at ob \<noteq> windspeed_at ob" "lat_at ob \<noteq> windspeed_at ob"
    using sep by (auto simp: separate_def addrs_def)
  have lt: "lon_at ob < top s2" "lat_at ob < top s2"
    using al top2 by (simp_all add: allocated_def addrs_def)
  from avg have first: "first = ob\<lparr>windspeed_at := top s2\<rparr>"
    and s': "s' = s2\<lparr>cell := (cell s2)(top s2 := divide_array (cell s2 (windspeed_at ob))
                                              (real (length days))),
                     top := Suc (top s2)\<rparr>"
    by (simp_all add: average_Cons)
  have c1: "cell s' (lon_at first) = Array1 (lon (f 1))"
    and c2: "cell s' (lat_at first) = Array1 (lat (f 1))"
    using h1 same ne lt by (simp_all add: first s' holds_def)
  have c3: "cell s' (windspeed_at first) = Array2 (divide2 A (real (length days)))"
    using A(1) by (simp add: first s')
  have "shape2 (divide2 A (real (length days))) = shape2 (windspeed (f 1))"
    using A(2) by (simp add: shape2_divide2)
  then have "has_shape (divide2 A (real (length days))) (length (lat (f 1))) (length (lon (f 1)))"
    using sh1 by (rule shape2_has_shape)
  with c1 c2 c3 show ?thesis by (simp add: aligned_def)
qed

text \<open>
  C7 (after every successful load the wind speed has the shape (length of lat, length
  of lon), and the averaging of \<^verbatim>\<open>plot_gfs_average\<close> preserves this). No load
  compares the shape of the wind components with the coordinate arrays, and nothing
  reads the latitudes, so a load of a source with two rows of wind for one latitude
  succeeds (\<open>fields_aligned_counterexample\<close>). For sources whose wind components are
  aligned with their coordinates the claim holds: every successful GFS or ERA load
  stores a wind speed with one row per stored latitude and one column per stored
  longitude, and after the averaging the first dataset is aligned in the same way.
\<close>

theorem fields_aligned:
  "(gfs_grid c \<and> GFS_load c = Inr f \<longrightarrow>
      has_shape (windspeed f) (length (lat f)) (length (lon f))) \<and>
   (era_grid d \<and> ERA_load d year = Inr f' \<longrightarrow>
      has_shape (windspeed f') (length (lat f')) (length (lon f'))) \<and>
   ((\<forall>day\<in>set days. \<forall>c. open_url env (gfs_url day) = Inr c \<longrightarrow> gfs_grid c) \<and>
    gfs_average env s = Inr (s', first # rest) \<longrightarrow> aligned s' first)"
  using GFS_load_aligned ERA_load_aligned averaged_aligned by blast

theorem fields_aligned_witness:
  "(\<exists>f. GFS_load example_gfs = Inr f \<and>
        has_shape (windspeed f) (length (lat f)) (length (lon f))) \<and>
   (\<exists>f. ERA_load example_era 1979 = Inr f \<and>
        has_shape (windspeed f) (length (lat f)) (length (lon f))) \<and>
   (\<exists>s' first rest. gfs_average example_env empty_store = Inr (s', first # rest) \<and>
        aligned s' first)"
proof -
  obtain f where f: "GFS_load example_gfs = Inr f" by (simp add: example_gfs_load)
  have "spans (longitude example_era) 180" "0 < length (era_u example_era)"
    by (simp_all add: example_era_def spans_def)
  then obtain f' where f': "ERA_load example_era 1979 = Inr f'"
    using ERA_load_ok[OF example_era_grid, of 0 1979] by simp
  have "\<forall>day\<in>set days. gfs_fetch example_env (gfs_url day) =
           Inr \<lparr>lon = [- 180, - 90, 0, 90], lat = [45], windspeed = [[3.6, 0, 3.6, 0]]\<rparr> \<and>
         shape2 (windspeed \<lparr>lon = [- 180, - 90, 0, 90], lat = [45],
                            windspeed = [[3.6, 0, 3.6, 0]]\<rparr>) = [4]"
    by (simp add: example_gfs_fetch shape2_def)
  from gfs_average_ok[OF this, of empty_store] obtain s' first rest
    where g: "gfs_average example_env empty_store = Inr (s', first # rest)" by blast
  have grid: "\<forall>day\<in>set days. \<forall>c. open_url example_env (gfs_url day) = Inr c \<longrightarrow> gfs_grid c"
    by (simp add: example_env_def example_gfs_grid)
  from fields_aligned[of example_gfs f example_era 1979 f' example_env empty_store s' first rest]
    example_gfs_grid example_era_grid f f' g grid
  show ?thesis by blast
qed

theorem fields_aligned_counterexample:
  "GFS_load \<lparr>gfs_lon = [0, 180], gfs_lat = [10],
             ugrdtrop = [[1, 0], [0, 1]], vgrdtrop = [[0, 0], [0, 0]]\<rparr>
     = Inr \<lparr>lon = [- 180, 0], lat = [10], windspeed = [[0, 3.6], [3.6, 0]]\<rparr>
   \<and> \<not> has_shape [[0, 3.6], [3.6, 0]] (length [10::real]) (length [- 180, 0::real])"
  by (simp add: GFS_load_def gfs_windspeed_def np_defs has_shape_def)

text \<open>
  C9 (the accumulation loop of \<^verbatim>\<open>plot_gfs_average\<close> modifies only the wind speed of
  the first dataset, in place). For the datasets the first loop has loaded, whatever
  the environment: when the accumulation loop ends, the array at every address other
  than that of the first wind speed is what it was, in particular the longitudes and
  latitudes of the first dataset and all three arrays of every other dataset.
\<close>

theorem accumulate_changes_first_windspeed_only:
  assumes "load_days env s [] days = Inr (s1, first # rest)"
    and "accumulate s1 first rest = Inr s2"
  shows "(\<forall>a. a \<noteq> windspeed_at first \<longrightarrow> cell s2 a = cell s1 a) \<and>
         cell s2 (lon_at first) = cell s1 (lon_at first) \<and>
         cell s2 (lat_at first) = cell s1 (lat_at first) \<and>
         (\<forall>data\<in>set rest.
            cell s2 (lon_at data) = cell s1 (lon_at data) \<and>
            cell s2 (lat_at data) = cell s1 (lat_at data) \<and>
            cell s2 (windspeed_at data) = cell s1 (windspeed_at data))"
proof -
  have e: "list_all (allocated s) []" "separate []" by (simp_all add: separate_def)
  from load_days_inv[OF assms(1) e] have sep: "separate (first # rest)" by simp
  from accumulate_frame[OF assms(2)]
  have same: "\<And>a. a \<noteq> windspeed_at first \<Longrightarrow> cell s2 a = cell s1 a" by simp
  have own: "lon_at first \<noteq> windspeed_at first" "lat_at first \<noteq> windspeed_at first"
    using sep by (auto simp: separate_def addrs_def)
  show ?thesis using same own separate_Cons(1-3)[OF sep] by auto
qed

theorem accumulate_changes_first_windspeed_only_witness:
  "\<exists>s1 first rest s2.
     load_days example_env empty_store [] days = Inr (s1, first # rest) \<and>
     accumulate s1 first rest = Inr s2 \<and>
     cell s2 (lon_at first) = cell s1 (lon_at first) \<and>
     cell s2 (lat_at first) = cell s1 (lat_at first) \<and>
     (\<forall>data\<in>set rest.
        cell s2 (lon_at data) = cell s1 (lon_at data) \<and>
        cell s2 (lat_at data) = cell s1 (lat_at data) \<and>
        cell s2 (windspeed_at data) = cell s1 (windspeed_at data))"
proof -
  define drest where "drest = [2..<17]"
  have dc: "days = 1 # drest" by (simp only: drest_def days_Cons)
  have "\<forall>day\<in>set (1 # drest). gfs_fetch example_env (gfs_url day) =
           Inr \<lparr>lon = [- 180, - 90, 0, 90], lat = [45], windspeed = [[3.6, 0, 3.6, 0]]\<rparr> \<and>
         shape2 (windspeed \<lparr>lon = [- 180, - 90, 0, 90], lat = [45],
                            windspeed = [[3.6, 0, 3.6, 0]]\<rparr>) = [4]"
    by (simp add: example_gfs_fetch shape2_def)
  from accumulated_state[OF this, of empty_store] obtain s1 first rest s2
    where l: "load_days example_env empty_store [] days = Inr (s1, first # rest)"
      and a: "accumulate s1 first rest = Inr s2"
    unfolding dc by blast
  from accumulate_changes_first_windspeed_only[OF l a] l a show ?thesis by blast
qed

section \<open>The batch drivers\<close>

subsection \<open>File names\<close>

lemma digit_value_digit: "d < 10 \<Longrightarrow> digit_value (digit d) = d"
proof -
  assume "d < 10"
  then have "d = 0 \<or> d = 1 \<or> d = 2 \<or> d = 3 \<or> d = 4 \<or> d = 5 \<or> d = 6 \<or> d = 7 \<or> d = 8 \<or> d = 9"
    by arith
  then show ?thesis by (elim disjE) (simp_all add: digit_value_def digit_def)
qed

lemma nat_of_str_snoc: "nat_of_str (cs @ [c]) = 10 * nat_of_str cs + digit_value c"
  by (simp add: nat_of_str_def)

lemma nat_of_str_nat: "nat_of_str (str_nat n) = n"
proof (induction n rule: str_nat.induct)
  case (1 n)
  show ?case
  proof (cases "n < 10")
    case True
    then show ?thesis
      by (subst str_nat.simps) (simp add: nat_of_str_def digit_value_digit)
  next
    case False
    with 1 have "nat_of_str (str_nat (n div 10)) = n div 10" by simp
    with False show ?thesis
      by (subst str_nat.simps) (simp add: nat_of_str_snoc digit_value_digit)
  qed
qed

lemma str_nat_inj: "str_nat m = str_nat n \<Longrightarrow> m = n"
  using nat_of_str_nat by metis

lemma era_png_inj: "0 \<le> y \<Longrightarrow> 0 \<le> y' \<Longrightarrow> era_png y = era_png y' \<Longrightarrow> y = y'"
proof -
  assume y: "0 \<le> y" "0 \<le> y'" and "era_png y = era_png y'"
  then have "str_nat (nat y) = str_nat (nat y')" by (simp add: era_png_def str_int_def)
  then have "nat y = nat y'" by (rule str_nat_inj)
  with y show ?thesis by simp
qed

lemma era_png_distinct: "distinct (map era_png [1979..2013])"
proof -
  have "inj_on era_png (set [1979..2013])"
  proof (rule inj_onI)
    fix x y assume "x \<in> set [1979..2013]" "y \<in> set [1979..2013]"
    then have "1979 \<le> x" "1979 \<le> y" by (simp_all only: set_upto atLeastAtMost_iff)
    then have "0 \<le> x" "0 \<le> y" by simp_all
    moreover assume "era_png x = era_png y"
    ultimately show "x = y" by (rule era_png_inj)
  qed
  moreover have "distinct [1979..2013::int]" by (rule distinct_upto)
  ultimately show ?thesis by (simp only: distinct_map simp_thms)
qed

subsection \<open>The loop of plot_era_average\<close>

lemma create_map_bind:
  "create_map env (fst (bind_attributes s f)) (snd (bind_attributes s f)) title =
     render env (Array1 (lon f)) (Array1 (lat f)) (Array2 (windspeed f)) title"
  using bind_holds[of s f] by (simp add: create_map_def holds_def)

lemma era_loop_store: "era_loop env s files years = era_loop env s' files years"
proof (induction years arbitrary: s s' files)
  case Nil
  then show ?case by simp
next
  case (Cons year years)
  show ?case
  proof (cases "era_fetch env year")
    case (Inl e)
    then show ?thesis by (simp add: new_ERA)
  next
    case (Inr f)
    have "era_loop env (fst (bind_attributes s f)) fs years =
          era_loop env (fst (bind_attributes s' f)) fs years" for fs
      by (rule Cons.IH)
    then show ?thesis
      using Inr by (simp add: new_ERA create_map_bind savefig_def case_prod_beta split: sum.split)
  qed
qed

lemma era_loop_Cons:
  "era_loop env s files (year # years) =
     (case era_iteration env year of
        Inl e \<Rightarrow> (files, Some e)
      | Inr fig \<Rightarrow> era_loop env s (files @ [(era_png year, fig)]) years)"
proof (cases "era_fetch env year")
  case (Inl e)
  then show ?thesis by (simp add: new_ERA era_iteration_def)
next
  case (Inr f)
  have "era_loop env (fst (bind_attributes s f)) fs years = era_loop env s fs years" for fs
    by (rule era_loop_store)
  then show ?thesis
    using Inr
    by (simp add: new_ERA era_iteration_def create_map_bind savefig_def case_prod_beta
        split: sum.split)
qed

declare era_loop.simps(2) [simp del]

lemma era_loop_ok:
  assumes "\<forall>year\<in>set years. era_iteration env year = Inr (g year)"
  shows "era_loop env s files years = (files @ map (\<lambda>year. (era_png year, g year)) years, None)"
  using assms by (induction years arbitrary: files) (simp_all add: era_loop_Cons)

lemma era_loop_fail:
  assumes "\<forall>y\<in>set pre. era_iteration env y = Inr (g y)" "era_fetch env year = Inl e"
  shows "era_loop env s files (pre @ year # post) =
           (files @ map (\<lambda>y. (era_png y, g y)) pre, Some e)"
  using assms
  by (induction pre arbitrary: files) (simp_all add: era_loop_Cons era_iteration_def)

lemma gfs_average_fail:
  assumes "day \<in> set days"
    and "\<forall>d\<in>set days. d < day \<longrightarrow> (\<exists>f. gfs_fetch env (gfs_url d) = Inr f)"
    and "gfs_fetch env (gfs_url day) = Inl e"
  shows "gfs_average env s = Inl e"
proof -
  from assms(1) have d: "1 \<le> day" "day < 17" by (simp_all add: days_def)
  then have "[1..<17] = [1..<day] @ [day..<17]"
    using upt_add_eq_append[of 1 day "17 - day"] by simp
  moreover have "[day..<17] = day # [Suc day..<17]" using d by (simp add: upt_conv_Cons)
  ultimately have split: "days = [1..<day] @ day # [Suc day..<17]" by (simp add: days_def)
  have "\<forall>d\<in>set [1..<day]. \<exists>f. gfs_fetch env (gfs_url d) = Inr f"
    using assms(2) d by (auto simp: days_def)
  then have "load_days env s [] ([1..<day] @ day # [Suc day..<17]) = Inl e"
    using assms(3) by (rule load_days_fail)
  then show ?thesis by (simp add: gfs_average_def split)
qed

lemma digit_value_0: "digit_value (CHR ''0'') = 0"
  by (simp add: digit_value_def)

lemma nat_of_str_zeros: "nat_of_str (replicate k (CHR ''0'') @ cs) = nat_of_str cs"
proof -
  have "foldl (\<lambda>a c. 10 * a + digit_value c) 0 (replicate k (CHR ''0'')) = 0"
    by (induction k) (simp_all add: digit_value_0)
  then show ?thesis by (simp add: nat_of_str_def)
qed

lemma gfs_url_inj: "gfs_url d = gfs_url d' \<Longrightarrow> d = d'"
proof -
  assume "gfs_url d = gfs_url d'"
  then have "format_02d d = format_02d d'" by (simp add: gfs_url_def)
  then have "nat_of_str (format_02d d) = nat_of_str (format_02d d')" by simp
  then show ?thesis by (simp add: format_02d_def nat_of_str_zeros nat_of_str_nat)
qed

lemma plot_era_average_fail:
  assumes "year \<in> set [1979..2013]"
    and "\<forall>y\<in>set [1979..2013]. y < year \<longrightarrow> era_iteration env y = Inr (g y)"
    and "era_fetch env year = Inl e"
  shows "plot_era_average env s files =
           (files @ map (\<lambda>y. (era_png y, g y)) [1979..year - 1], Some e)"
proof -
  from assms(1) have y: "1979 \<le> year" "year \<le> 2013" by (simp_all only: set_upto atLeastAtMost_iff)
  then have split: "[1979..2013] = [1979..year - 1] @ year # [year + 1..2013]"
    by (rule upto_split3)
  have "\<forall>y\<in>set [1979..year - 1]. era_iteration env y = Inr (g y)"
  proof
    fix y' assume "y' \<in> set [1979..year - 1]"
    then have "1979 \<le> y'" "y' \<le> year - 1" by (simp_all only: set_upto atLeastAtMost_iff)
    then have "1979 \<le> y' \<and> y' \<le> 2013" and lt: "y' < year" using y by arith+
    then have "y' \<in> set [1979..2013]" by (simp only: set_upto atLeastAtMost_iff)
    with assms(2) lt show "era_iteration env y' = Inr (g y')" by blast
  qed
  then have "era_loop env s files ([1979..year - 1] @ year # [year + 1..2013]) =
      (files @ map (\<lambda>y. (era_png y, g y)) [1979..year - 1], Some e)"
    using assms(3) by (rule era_loop_fail)
  then show ?thesis unfolding plot_era_average_def by (simp only: split[symmetric])
qed

lemma plot_gfs_average_ok:
  assumes "gfs_average env s = Inr (s', first # rest)"
    and "create_map env s' first gfs_title = Inr fig" and "writable env ''output/gfs.png''"
  shows "plot_gfs_average env s files = (files @ [(''output/gfs.png'', fig)], None)"
  using assms by (simp add: plot_gfs_average_def savefig_def)

text \<open>
  C5 (\<^verbatim>\<open>plot_era_average\<close> writes one PNG file \<^verbatim>\<open>output/<year>.png\<close> for every year
  from 1979 to 2013, \<^verbatim>\<open>plot_gfs_average\<close> writes the single file \<^verbatim>\<open>output/gfs.png\<close>).
  In a run in which no iteration raises, \<^verbatim>\<open>plot_era_average\<close> returns normally and has
  appended to the files exactly one entry per year, in the order of the years, named
  \<open>era_png year\<close> and holding the figure of that year; the 35 names differ from each
  other. When the averaged state exists, the map is rendered and the file can be
  written, \<^verbatim>\<open>plot_gfs_average\<close> returns normally and has appended exactly the file
  \<^verbatim>\<open>output/gfs.png\<close>.
\<close>

theorem images_written:
  "((\<forall>year\<in>set [1979..2013]. era_iteration env year = Inr (g year)) \<longrightarrow>
      plot_era_average env s files =
        (files @ map (\<lambda>year. (era_png year, g year)) [1979..2013], None)) \<and>
   distinct (map era_png [1979..2013]) \<and>
   (gfs_average env s = Inr (s', first # rest) \<and>
    create_map env s' first gfs_title = Inr fig \<and> writable env ''output/gfs.png'' \<longrightarrow>
      plot_gfs_average env s files = (files @ [(''output/gfs.png'', fig)], None))"
  using era_loop_ok[of "[1979..2013]" env g s files] era_png_distinct
    plot_gfs_average_ok[of env s s' first rest fig files]
  unfolding plot_era_average_def by blast

lemma long_era_grid: "era_grid long_era"
  by (simp add: era_grid_def has_shape_def long_era_def list_all_iff)

lemma long_era_iteration:
  assumes "year \<in> set [1979..2013]"
  shows "era_iteration long_env year = Inr (era_title year)"
proof -
  from assms have y: "1979 \<le> year" "year \<le> 2013" by (simp_all only: set_upto atLeastAtMost_iff)
  have "spans (longitude long_era) 180" by (simp add: long_era_def spans_def)
  moreover have "nat (year - 1979) < length (era_u long_era)" using y by (simp add: long_era_def)
  moreover have "year - 1979 = int (nat (year - 1979)) \<or>
      year - 1979 = int (nat (year - 1979)) - int (length (era_u long_era))"
    using y by simp
  ultimately have "\<exists>f. ERA_load long_era year = Inr f"
    using ERA_load_ok[OF long_era_grid] by blast
  then show ?thesis
    by (auto simp: era_iteration_def era_fetch_def long_env_def example_env_def)
qed

lemma example_fetches:
  "\<forall>day\<in>set days. gfs_fetch example_env (gfs_url day) =
           Inr \<lparr>lon = [- 180, - 90, 0, 90], lat = [45], windspeed = [[3.6, 0, 3.6, 0]]\<rparr> \<and>
         shape2 (windspeed \<lparr>lon = [- 180, - 90, 0, 90], lat = [45],
                            windspeed = [[3.6, 0, 3.6, 0]]\<rparr>) = [4]"
  by (simp add: example_gfs_fetch shape2_def)

theorem images_written_witness:
  "plot_era_average long_env empty_store [] =
     (map (\<lambda>year. (era_png year, era_title year)) [1979..2013], None) \<and>
   distinct (map era_png [1979..2013]) \<and>
   plot_gfs_average example_env empty_store [] = ([(''output/gfs.png'', gfs_title)], None) \<and>
   era_png 1979 = ''output/1979.png'' \<and> era_png 2013 = ''output/2013.png''"
proof -
  from gfs_average_ok[OF example_fetches, of empty_store] obtain s' first rest
    where g: "gfs_average example_env empty_store = Inr (s', first # rest)" by blast
  have c: "create_map example_env s' first gfs_title = Inr gfs_title"
    by (simp add: create_map_def example_env_def)
  have w: "writable example_env ''output/gfs.png''" by (simp add: example_env_def)
  have n: "era_png 1979 = ''output/1979.png''" "era_png 2013 = ''output/2013.png''"
    by code_simp+
  from images_written[where env=long_env and g=era_title and s=empty_store and files="[]"]
    long_era_iteration
  have "plot_era_average long_env empty_store [] =
     (map (\<lambda>year. (era_png year, era_title year)) [1979..2013], None)"
    and "distinct (map era_png [1979..2013])"
    by simp_all
  moreover from images_written[where env=example_env and s=empty_store and files="[]" and s'=s'
      and first=first and rest=rest and fig=gfs_title]
    g c w
  have "plot_gfs_average example_env empty_store [] = ([(''output/gfs.png'', gfs_title)], None)"
    by simp
  ultimately show ?thesis using n by blast
qed

text \<open>
  C6 (no exception is caught: a failure raised during a load in a batch driver
  propagates to the caller, the loop ends at that iteration, and no image is written
  for that or any later iteration). When the iterations before \<open>year\<close> complete and
  the load of \<open>year\<close> raises \<open>e\<close>, \<^verbatim>\<open>plot_era_average\<close> ends with \<open>e\<close> and has written
  the files of the years before \<open>year\<close> and no other. When the loads before \<open>day\<close>
  succeed and the load of \<open>day\<close> raises \<open>e'\<close>, \<^verbatim>\<open>plot_gfs_average\<close> ends with \<open>e'\<close>
  and has written no file.
\<close>

theorem load_failure_propagates:
  "(year \<in> set [1979..2013] \<and>
    (\<forall>y\<in>set [1979..2013]. y < year \<longrightarrow> era_iteration env y = Inr (g y)) \<and>
    era_fetch env year = Inl e \<longrightarrow>
      plot_era_average env s files =
        (files @ map (\<lambda>y. (era_png y, g y)) [1979..year - 1], Some e)) \<and>
   (day \<in> set days \<and>
    (\<forall>d\<in>set days. d < day \<longrightarrow> (\<exists>f. gfs_fetch env (gfs_url d) = Inr f)) \<and>
    gfs_fetch env (gfs_url day) = Inl e' \<longrightarrow>
      plot_gfs_average env s files = (files, Some e'))"
proof (intro conjI impI)
  assume "year \<in> set [1979..2013] \<and>
    (\<forall>y\<in>set [1979..2013]. y < year \<longrightarrow> era_iteration env y = Inr (g y)) \<and>
    era_fetch env year = Inl e"
  then show "plot_era_average env s files =
        (files @ map (\<lambda>y. (era_png y, g y)) [1979..year - 1], Some e)"
    using plot_era_average_fail by blast
next
  assume "day \<in> set days \<and>
    (\<forall>d\<in>set days. d < day \<longrightarrow> (\<exists>f. gfs_fetch env (gfs_url d) = Inr f)) \<and>
    gfs_fetch env (gfs_url day) = Inl e'"
  then have "gfs_average env s = Inl e'" using gfs_average_fail by blast
  then show "plot_gfs_average env s files = (files, Some e')"
    by (simp add: plot_gfs_average_def)
qed

lemma example_era_iteration:
  assumes "1979 \<le> year" "year < 1981"
  shows "era_iteration example_env year = Inr (era_title year)"
proof -
  have "spans (longitude example_era) 180" by (simp add: example_era_def spans_def)
  moreover have "nat (year - 1979) < length (era_u example_era)"
    using assms by (simp add: example_era_def)
  moreover have "year - 1979 = int (nat (year - 1979)) \<or>
      year - 1979 = int (nat (year - 1979)) - int (length (era_u example_era))"
    using assms by simp
  ultimately have "\<exists>f. ERA_load example_era year = Inr f"
    using ERA_load_ok[OF example_era_grid] by blast
  then show ?thesis
    by (auto simp: era_iteration_def era_fetch_def example_env_def)
qed

theorem load_failure_propagates_witness:
  "plot_era_average example_env empty_store [] =
     ([(era_png 1979, era_title 1979), (era_png 1980, era_title 1980)], Some IndexError) \<and>
   plot_gfs_average flaky_env empty_store [] = ([], Some IOError)"
proof -
  have y: "(1981::int) \<in> set [1979..2013]" by (simp only: set_upto atLeastAtMost_iff) simp
  have before: "\<forall>y\<in>set [1979..2013]. y < 1981 \<longrightarrow>
                  era_iteration example_env y = Inr (era_title y)"
  proof (intro ballI impI)
    fix y :: int assume "y \<in> set [1979..2013]" "y < 1981"
    then have "1979 \<le> y" "y < 1981" by (simp_all only: set_upto atLeastAtMost_iff)
    then show "era_iteration example_env y = Inr (era_title y)" by (rule example_era_iteration)
  qed
  have "ERA_load example_era 1981 = Inl IndexError"
    by (rule ERA_load_IndexError[OF example_era_grid]) (simp add: example_era_def)
  then have fail: "era_fetch example_env 1981 = Inl IndexError"
    by (simp add: era_fetch_def example_env_def)
  have d: "3 \<in> set days" by (simp add: days_def)
  have gb: "\<forall>d\<in>set days. d < 3 \<longrightarrow> (\<exists>f. gfs_fetch flaky_env (gfs_url d) = Inr f)"
  proof (intro ballI impI)
    fix d :: nat assume "d < 3"
    then have "gfs_url d \<noteq> gfs_url 3" using gfs_url_inj[of d 3] by auto
    then show "\<exists>f. gfs_fetch flaky_env (gfs_url d) = Inr f"
      by (simp add: gfs_fetch_def flaky_env_def example_env_def example_gfs_load)
  qed
  have gf: "gfs_fetch flaky_env (gfs_url 3) = Inl IOError"
    by (simp add: gfs_fetch_def flaky_env_def example_env_def)
  have up: "[1979..1981 - 1] = [1979, 1980::int]" by (simp add: upto.simps)
  from load_failure_propagates[where year=1981 and env=example_env and g=era_title
      and e=IndexError and s=empty_store and files="[]"]
  have "plot_era_average example_env empty_store [] =
          ([] @ map (\<lambda>y. (era_png y, era_title y)) [1979..1981 - 1], Some IndexError)"
    using y before fail by blast
  then have 1: "plot_era_average example_env empty_store [] =
     ([(era_png 1979, era_title 1979), (era_png 1980, era_title 1980)], Some IndexError)"
    by (simp only: up list.map append_Nil)
  from load_failure_propagates[where env=flaky_env and s=empty_store and files="[]"
      and day=3 and e'=IOError]
  have 2: "plot_gfs_average flaky_env empty_store [] = ([], Some IOError)"
    using d gb gf by blast
  from 1 2 show ?thesis by blast
qed

section \<open>Constructing the classes\<close>

text \<open>
  C10 (instantiating the base class \<^verbatim>\<open>JetStreamData\<close> always raises, only the
  subclasses can be constructed). The lookup of \<^verbatim>\<open>load\<close> fails for the base class,
  whatever the environment, the store and the attributes; for the two subclasses it
  finds the method of the subclass, so constructing them runs their own load, which
  succeeds in the example environment.
\<close>

theorem JetStreamData_abstract:
  "new env s JetStreamData attrs = Inl AttributeError
   \<and> new env s GFSJetStreamData (Url url) = GFSJetStreamData_load env s url
   \<and> new env s ERAJetStreamData (Year year) = ERAJetStreamData_load env s year
   \<and> (\<exists>r. new example_env empty_store GFSJetStreamData (Url url) = Inr r)
   \<and> (\<exists>r. new example_env empty_store ERAJetStreamData (Year 1979) = Inr r)"
proof -
  have "\<exists>r. new example_env empty_store GFSJetStreamData (Url url) = Inr r"
    by (simp add: new_GFS example_gfs_fetch)
  moreover have "era_iteration example_env 1979 = Inr (era_title 1979)"
    by (rule example_era_iteration) simp_all
  then have "\<exists>r. new example_env empty_store ERAJetStreamData (Year 1979) = Inr r"
    by (auto simp: new_ERA era_iteration_def split: sum.splits)
  ultimately show ?thesis by (simp add: new_def resolve_def)
qed

end
